theory Spec2Isabelle
  imports Main "HOL-Library.Sublist" "HOL-Library.AList"
begin

section \<open>Project creation of the Diez command line (packages/createproject/src/utils.ts)\<close>

text \<open>
  The workflow of \<^verbatim>\<open>createProject\<close> is sequential: every \<^verbatim>\<open>await\<close> is a plain call.
  What it reads from its surroundings (the name validator, child processes, the download,
  the case conversions, constants of other packages) is gathered in an environment record;
  what it changes (the file system and the log) is a state that each function takes and
  returns. A JavaScript \<^verbatim>\<open>throw\<close> is the \<open>Inl\<close> of a sum.

  Strings are lists of 8-bit characters, paths are POSIX paths.
\<close>

subsection \<open>Data\<close>

type_synonym path = "string list"

datatype node = Dir | File string

type_synonym filesystem = "(path \<times> node) list"

datatype error = Error string | SysError string path

datatype log_entry =
    Info "string list"
  | Warning "string list"
  | LoadingStart string
  | LoadingStop

record state =
  files :: filesystem
  logged :: "log_entry list"

text \<open>The result object of \<^verbatim>\<open>validate-npm-package-name\<close>; an absent field is \<open>None\<close>.\<close>

record validation_result =
  validForNewPackages :: bool
  errors :: "string list option"
  warnings :: "string list option"

text \<open>
  \<^verbatim>\<open>spawnSync('npm', ['config', 'list']).output.join('')\<close> inside its \<^verbatim>\<open>try\<close>: the expression
  throws, or it yields a value that is a string or is not.
\<close>

datatype js_value = JString string | JNonString

datatype child_output = SpawnThrows | Joined js_value

subsection \<open>canUseNpm\<close>

text \<open>
  The line terminators of a JavaScript regular expression that an 8-bit character can
  be: line feed and carriage return (U+2028 and U+2029 are outside the type).
\<close>

definition line_terminator :: "char \<Rightarrow> bool" where
  "line_terminator c = (c = CHR 0x0A \<or> c = CHR 0x0D)"

text \<open>
  \<^verbatim>\<open>childOutput.match(/^; cwd = (.*)$/m)\<close>: the search tries every position from the left.
  With the flag \<^verbatim>\<open>m\<close> the anchor \<^verbatim>\<open>^\<close> holds at the start and after a line terminator
  (the flag \<open>bol\<close>); the greedy \<^verbatim>\<open>(.*)\<close> takes every character up to the next line
  terminator, where \<^verbatim>\<open>$\<close> holds. The result is group 1 of the first match.
\<close>

fun match_cwd_from :: "bool \<Rightarrow> string \<Rightarrow> string option" where
  "match_cwd_from bol [] = None"
| "match_cwd_from bol (c # cs) =
     (if bol \<and> prefix ''; cwd = '' (c # cs)
      then Some (takeWhile (\<lambda>x. \<not> line_terminator x) (drop 8 (c # cs)))
      else match_cwd_from (line_terminator c) cs)"

definition match_cwd :: "string \<Rightarrow> string option" where
  "match_cwd s = match_cwd_from True s"

text \<open>
  \<^verbatim>\<open>canUseNpm(root)\<close>; its first argument here is what the \<^verbatim>\<open>try\<close> block around
  \<^verbatim>\<open>spawnSync\<close> came to.
\<close>

definition canUseNpm :: "child_output \<Rightarrow> string \<Rightarrow> bool" where
  "canUseNpm childOutput root =
     (case childOutput of
        SpawnThrows \<Rightarrow> True
      | Joined JNonString \<Rightarrow> True
      | Joined (JString out) \<Rightarrow>
          (case match_cwd out of
             None \<Rightarrow> True
           | Some m \<Rightarrow> m = root))"

text \<open>The lines of a string, as the claim speaks of them: the pieces between line terminators.\<close>

fun split_lines :: "string \<Rightarrow> string list" where
  "split_lines [] = [[]]"
| "split_lines (c # cs) =
     (if line_terminator c then [] # split_lines cs
      else (case split_lines cs of
              [] \<Rightarrow> [[c]]
            | l # ls \<Rightarrow> (c # l) # ls))"

definition cwd_line :: "string \<Rightarrow> string option" where
  "cwd_line out = find (prefix ''; cwd = '') (split_lines out)"

subsection \<open>Paths\<close>

text \<open>
  A \<open>path\<close> is an absolute, normalised POSIX path, kept as the list of its components;
  \<open>path_str\<close> is the string JavaScript holds. \<open>basename\<close>, \<open>resolve\<close>, \<open>join_path\<close>
  and \<open>relative\<close> follow \<^verbatim>\<open>path.posix\<close> of Node.js (not among the sources) on such paths.
\<close>

definition path_str :: "path \<Rightarrow> string" where
  "path_str p = (if p = [] then ''/'' else concat (map (\<lambda>seg. CHR ''/'' # seg) p))"

fun intercalate :: "string \<Rightarrow> string list \<Rightarrow> string" where
  "intercalate sep [] = []"
| "intercalate sep [x] = x"
| "intercalate sep (x # y # ys) = x @ sep @ intercalate sep (y # ys)"

text \<open>The last component of a path string, trailing slashes dropped.\<close>

definition basename :: "string \<Rightarrow> string" where
  "basename p =
     rev (takeWhile (\<lambda>c. c \<noteq> CHR ''/'') (dropWhile (\<lambda>c. c = CHR ''/'') (rev p)))"

fun split_slash :: "string \<Rightarrow> string list" where
  "split_slash [] = [[]]"
| "split_slash (c # cs) =
     (if c = CHR ''/'' then [] # split_slash cs
      else (case split_slash cs of
              [] \<Rightarrow> [[c]]
            | seg # segs \<Rightarrow> (c # seg) # segs))"

definition step_segment :: "path \<Rightarrow> string \<Rightarrow> path" where
  "step_segment p seg =
     (if seg = [] \<or> seg = ''.'' then p
      else if seg = ''..'' then butlast p
      else p @ [seg])"

definition step_argument :: "path \<Rightarrow> string \<Rightarrow> path" where
  "step_argument p arg = fold (\<lambda>seg q. step_segment q seg) (split_slash arg) p"

text \<open>\<^verbatim>\<open>resolve(base, ...args)\<close>: an argument that is absolute starts again from the root.\<close>

definition resolve :: "path \<Rightarrow> string list \<Rightarrow> path" where
  "resolve base args =
     fold (\<lambda>arg p. step_argument (if prefix ''/'' arg then [] else p) arg) args base"

definition join_path :: "path \<Rightarrow> string list \<Rightarrow> path" where
  "join_path base args = fold (\<lambda>arg p. step_argument p arg) args base"

definition relative :: "path \<Rightarrow> path \<Rightarrow> string" where
  "relative from to =
     (let n = length (longest_common_prefix from to)
      in intercalate ''/'' (replicate (length from - n) ''..'' @ drop n to))"

subsection \<open>The file system\<close>

text \<open>
  The file system is an association list from paths to nodes, read with \<open>map_of\<close>; the
  root directory always exists. Symbolic links are not modelled. \<open>ensureDirSync\<close> is
  \<^verbatim>\<open>fs-extra\<close>'s (not among the sources): it keeps a directory that is there, refuses a
  file at the path (\<^verbatim>\<open>EEXIST\<close>), and creates the missing ancestors first; when a regular
  file is met on the way up, \<^verbatim>\<open>mkdir\<close> of the path fails with \<^verbatim>\<open>ENOTDIR\<close> and nothing is
  created.
\<close>

definition stat :: "filesystem \<Rightarrow> path \<Rightarrow> node option" where
  "stat fsys p = (if p = [] then Some Dir else map_of fsys p)"

definition existsSync :: "filesystem \<Rightarrow> path \<Rightarrow> bool" where
  "existsSync fsys p = (stat fsys p \<noteq> None)"

definition isDirectory :: "filesystem \<Rightarrow> path \<Rightarrow> bool" where
  "isDirectory fsys p = (stat fsys p = Some Dir)"

function ensureDirSync :: "filesystem \<Rightarrow> path \<Rightarrow> error + filesystem" where
  "ensureDirSync fsys p =
     (case stat fsys p of
        Some Dir \<Rightarrow> Inr fsys
      | Some (File c) \<Rightarrow> Inl (SysError ''EEXIST'' p)
      | None \<Rightarrow>
          (case ensureDirSync fsys (butlast p) of
             Inl e \<Rightarrow> Inl (SysError ''ENOTDIR'' p)
           | Inr fsys' \<Rightarrow> Inr (AList.update p Dir fsys')))"
  by pat_completeness auto
termination
  by (relation "measure (\<lambda>(fsys, p). length p)") (auto simp: stat_def split: if_splits)

text \<open>
  Writing one file creates its directory first. \<open>writeFiles\<close> writes a list of files in
  order and stops at the first failure, keeping what was written before it.
\<close>

definition writeFile :: "filesystem \<Rightarrow> path \<Rightarrow> string \<Rightarrow> error + filesystem" where
  "writeFile fsys p c =
     (case ensureDirSync fsys (butlast p) of
        Inl e \<Rightarrow> Inl e
      | Inr fsys' \<Rightarrow>
          (if stat fsys' p = Some Dir then Inl (SysError ''EISDIR'' p)
           else Inr (AList.update p (File c) fsys')))"

fun writeFiles :: "filesystem \<Rightarrow> path \<Rightarrow> (path \<times> string) list \<Rightarrow> error option \<times> filesystem" where
  "writeFiles fsys dst [] = (None, fsys)"
| "writeFiles fsys dst ((rel, c) # entries) =
     (case writeFile fsys (dst @ rel) c of
        Inl e \<Rightarrow> (Some e, fsys)
      | Inr fsys' \<Rightarrow> writeFiles fsys' dst entries)"

text \<open>
  Unpacking an archive below a directory (\<^verbatim>\<open>tar\<close>'s \<^verbatim>\<open>x({cwd})\<close>, not among the sources)
  writes its files in order. It has no failure of its own here: the source waits for
  the \<^verbatim>\<open>close\<close> event only, so a file that cannot be written is left out and no error
  is thrown.
\<close>

fun extractFiles :: "filesystem \<Rightarrow> path \<Rightarrow> (path \<times> string) list \<Rightarrow> filesystem" where
  "extractFiles fsys dst [] = fsys"
| "extractFiles fsys dst ((rel, c) # entries) =
     (case writeFile fsys (dst @ rel) c of
        Inl e \<Rightarrow> extractFiles fsys dst entries
      | Inr fsys' \<Rightarrow> extractFiles fsys' dst entries)"

text \<open>The regular files below a directory, with their paths relative to it.\<close>

definition readTree :: "filesystem \<Rightarrow> path \<Rightarrow> (path \<times> string) list" where
  "readTree fsys src =
     concat (map (\<lambda>(p, n). case n of
                     File c \<Rightarrow> if strict_prefix src p then [(drop (length src) p, c)] else []
                   | Dir \<Rightarrow> [])
               (AList.clearjunk fsys))"

subsection \<open>Token substitution\<close>

type_synonym tokens = "(string \<times> string) list"

text \<open>
  Modelled from the spec: \<^verbatim>\<open>outputTemplatePackage\<close> of \<^verbatim>\<open>@diez/storage\<close> is not among the
  sources. The spec has a token set map placeholder names to values, and a pass that
  "rewrites matching placeholders inside every file of the materialized template", in
  "file contents/names"; a placeholder is a token name between the delimiters \<^verbatim>\<open>{{\<close> and
  \<^verbatim>\<open>}}\<close> (the values the source gives \<^verbatim>\<open>openTag\<close> and \<^verbatim>\<open>closeTag\<close>). The pass reads the
  text from the left; where a placeholder of the token set starts, its value is written
  and reading goes on behind the placeholder; any other character is kept.
\<close>

definition placeholder :: "string \<Rightarrow> string" where
  "placeholder k = ''{{'' @ k @ ''}}''"

fun match_placeholder :: "tokens \<Rightarrow> string \<Rightarrow> (string \<times> string) option" where
  "match_placeholder [] s = None"
| "match_placeholder ((k, v) # tk) s =
     (if prefix (placeholder k) s then Some (v, drop (length (placeholder k)) s)
      else match_placeholder tk s)"

function substitute :: "tokens \<Rightarrow> string \<Rightarrow> string" where
  "substitute tk [] = []"
| "substitute tk (c # cs) =
     (case match_placeholder tk (c # cs) of
        Some (v, rest) \<Rightarrow> v @ substitute tk rest
      | None \<Rightarrow> c # substitute tk cs)"
  by pat_completeness auto
termination
proof (relation "measure (\<lambda>(tk, s). length s)")
  show "wf (measure (\<lambda>(tk, s). length s))" by simp
next
  fix tk :: tokens and c :: char and cs x2 v rest
  assume m: "match_placeholder tk (c # cs) = Some x2" and x: "(v, rest) = x2"
  have "match_placeholder tk' s = Some (v', r) \<Longrightarrow> s \<noteq> [] \<Longrightarrow> length r < length s"
    for tk' s v' r
    by (induction tk') (auto simp: placeholder_def split: if_splits)
  from this [of tk "c # cs" v rest] m x
  show "((tk, rest), tk, c # cs) \<in> measure (\<lambda>(tk, s). length s)" by simp
next
  fix tk :: tokens and c :: char and cs
  show "((tk, cs), tk, c # cs) \<in> measure (\<lambda>(tk, s). length s)" by simp
qed

text \<open>Whether a placeholder of the token set starts anywhere in a text.\<close>

fun has_placeholder :: "tokens \<Rightarrow> string \<Rightarrow> bool" where
  "has_placeholder tk [] = False"
| "has_placeholder tk (c # cs) =
     (match_placeholder tk (c # cs) \<noteq> None \<or> has_placeholder tk cs)"

text \<open>A template tree: its files, each a relative path and a content.\<close>

definition substituteTree :: "tokens \<Rightarrow> (path \<times> string) list \<Rightarrow> (path \<times> string) list" where
  "substituteTree tk tree = map (\<lambda>(rel, c). (map (substitute tk) rel, substitute tk c)) tree"

definition tree_has_placeholder :: "tokens \<Rightarrow> (path \<times> string) list \<Rightarrow> bool" where
  "tree_has_placeholder tk tree =
     list_ex (\<lambda>(rel, c). list_ex (has_placeholder tk) rel \<or> has_placeholder tk c) tree"

subsection \<open>The environment\<close>

text \<open>The ten conversions imported from the package \<^verbatim>\<open>change-case\<close>.\<close>

record change_case =
  camelCase :: "string \<Rightarrow> string"
  constantCase :: "string \<Rightarrow> string"
  dotCase :: "string \<Rightarrow> string"
  headerCase :: "string \<Rightarrow> string"
  kebabCase :: "string \<Rightarrow> string"
  lowerCase :: "string \<Rightarrow> string"
  noCase :: "string \<Rightarrow> string"
  pascalCase :: "string \<Rightarrow> string"
  snakeCase :: "string \<Rightarrow> string"
  titleCase :: "string \<Rightarrow> string"

text \<open>
  \<^verbatim>\<open>await downloadStream(url)\<close>: the promise is rejected, or it yields nothing, or it yields
  a stream, here the files of the archive with their paths inside it.
\<close>

datatype download = Rejected error | NoStream | Stream "(path \<times> string) list"

text \<open>
  Everything \<^verbatim>\<open>utils.ts\<close> imports and calls. A command or a repository initialisation
  only says whether it succeeded: what a child process writes is outside the model.
  \<open>dirname\<close> is \<^verbatim>\<open>__dirname\<close>, \<open>typescriptVersion\<close> is \<^verbatim>\<open>devDependencies.typescript\<close>.
\<close>

record env =
  validateNpmPackageName :: "string \<Rightarrow> validation_result"
  canRunCommand :: "string \<Rightarrow> bool"
  spawnSync :: "string \<Rightarrow> string list \<Rightarrow> child_output"
  downloadStream :: "string \<Rightarrow> download"
  getTempFileName :: path
  execAsync :: "string \<Rightarrow> path \<Rightarrow> bool"
  initializeGitRepository :: "path \<Rightarrow> bool"
  diezVersion :: string
  typescriptVersion :: string
  dirname :: path
  formatCode :: "string \<Rightarrow> string"
  formatComment :: "string \<Rightarrow> string"
  changeCase :: change_case

definition Log_info :: "string list \<Rightarrow> state \<Rightarrow> state" where
  "Log_info args s = s\<lparr>logged := logged s @ [Info args]\<rparr>"

definition Log_warning :: "string list \<Rightarrow> state \<Rightarrow> state" where
  "Log_warning args s = s\<lparr>logged := logged s @ [Warning args]\<rparr>"

subsection \<open>The workflow\<close>

definition examplesProjectUrl :: "env \<Rightarrow> string" where
  "examplesProjectUrl env =
     ''https://examples.diez.org/'' @ diezVersion env @ ''/createproject/project.tgz''"

definition validatePackageName :: "env \<Rightarrow> string \<Rightarrow> state \<Rightarrow> (error + unit) \<times> state" where
  "validatePackageName env packageName s =
     (let validationResult = validateNpmPackageName env packageName in
      if \<not> validForNewPackages validationResult then
        (let fromErrors =
               (case errors validationResult of
                  Some messages \<Rightarrow> map (\<lambda>message. '' - '' @ message) messages
                | None \<Rightarrow> []);
             fromWarnings =
               (case warnings validationResult of
                  Some messages \<Rightarrow> map (\<lambda>message. '' - '' @ message) messages
                | None \<Rightarrow> []);
             ws = fromErrors @ fromWarnings;
             s' = (if ws \<noteq> []
                   then Log_warning ws (Log_warning [''Project name validation failed:''] s)
                   else s)
         in (Inl (Error (''Unable to create project with name '' @ packageName @ ''.'')), s'))
      else (Inr (), s))"

definition shouldUseYarn :: "env \<Rightarrow> bool" where
  "shouldUseYarn env = canRunCommand env ''yarnpkg --version''"

definition validateProjectRoot :: "env \<Rightarrow> path \<Rightarrow> bool \<Rightarrow> state \<Rightarrow> (error + unit) \<times> state" where
  "validateProjectRoot env root useYarn s =
     (if existsSync (files s) root \<and> \<not> isDirectory (files s) root
      then (Inl (Error (''Found a non-directory at '' @ path_str root @ ''.'')), s)
      else
        (case ensureDirSync (files s) root of
           Inl e \<Rightarrow> (Inl e, s)
         | Inr fsys \<Rightarrow>
             (let s1 = s\<lparr>files := fsys\<rparr> in
              if existsSync fsys (join_path root [''package.json''])
              then (Inl (Error (''A Node.js project already exists at '' @ path_str root @ ''.'')), s1)
              else if useYarn then (Inr (), s1)
              else if \<not> canUseNpm (spawnSync env ''npm'' [''config'', ''list'']) (path_str root)
              then (Inl (Error (''Unable to start an NPM process in '' @ path_str root @ ''.'')), s1)
              else (Inr (), s1))))"

text \<open>
  The promise that \<^verbatim>\<open>downloadAndExtractProject\<close> returns is resolved by the \<^verbatim>\<open>close\<close> event
  of the unpacking stream and is never rejected: the only errors of this function are
  a rejected download and the missing stream.
\<close>

definition downloadAndExtractProject :: "env \<Rightarrow> path \<Rightarrow> state \<Rightarrow> (error + unit) \<times> state" where
  "downloadAndExtractProject env templateRoot s =
     (let s1 = Log_info [''Downloading template project from the Diez CDN...''] s in
      case downloadStream env (examplesProjectUrl env) of
        Rejected e \<Rightarrow> (Inl e, s1)
      | NoStream \<Rightarrow>
          (Inl (Error ''Unable to download template project from examples.diez.org. Please try again.''),
           s1)
      | Stream entries \<Rightarrow>
          (Inr (), s1\<lparr>files := extractFiles (files s1) templateRoot entries\<rparr>))"

text \<open>
  Modelled from the spec: \<^verbatim>\<open>outputTemplatePackage(templateRoot, outputRoot, tokens)\<close> of
  \<^verbatim>\<open>@diez/storage\<close> is not among the sources. By the spec it copies the template tree into
  the destination and substitutes the tokens in file contents and names: every file
  below the template root is written below the output root, at its relative path, path
  components and content rendered by \<open>substitute\<close>.
\<close>

definition outputTemplatePackage :: "path \<Rightarrow> path \<Rightarrow> tokens \<Rightarrow> state \<Rightarrow> (error + unit) \<times> state" where
  "outputTemplatePackage templateRoot outputRoot tk s =
     (case writeFiles (files s) outputRoot (substituteTree tk (readTree (files s) templateRoot)) of
        (Some e, fsys) \<Rightarrow> (Inl e, s\<lparr>files := fsys\<rparr>)
      | (None, fsys) \<Rightarrow> (Inr (), s\<lparr>files := fsys\<rparr>))"

text \<open>The object \<^verbatim>\<open>tokens\<close> of \<^verbatim>\<open>createTemplateProject\<close>, in the order of the source.\<close>

definition templateTokens :: "change_case \<Rightarrow> string \<Rightarrow> tokens" where
  "templateTokens cc name =
     (let pascalCased = pascalCase cc name;
          lowerCased = lowerCase cc pascalCased
      in [(''openTag'', ''{{''),
          (''closeTag'', ''}}''),
          (''namePascalCase'', pascalCased),
          (''nameLowerCase'', lowerCased),
          (''nameKebabCase'', kebabCase cc name),
          (''nameCamelCase'', camelCase cc name),
          (''nameTitleCase'', titleCase cc name),
          (''nameNoCase'', noCase cc name),
          (''nameSnakeCase'', snakeCase cc name),
          (''nameConstantCase'', constantCase cc name),
          (''nameHeaderCase'', headerCase cc name),
          (''nameDotCase'', dotCase cc name)])"

definition createTemplateProject :: "env \<Rightarrow> path \<Rightarrow> string \<Rightarrow> state \<Rightarrow> (error + unit) \<times> state" where
  "createTemplateProject env cwd name s =
     (let templateRoot = resolve (getTempFileName env) [''examples''] in
      case ensureDirSync (files s) templateRoot of
        Inl e \<Rightarrow> (Inl e, s)
      | Inr fsys \<Rightarrow>
          (case downloadAndExtractProject env templateRoot (s\<lparr>files := fsys\<rparr>) of
             (Inl e, s1) \<Rightarrow> (Inl e, s1)
           | (Inr u, s1) \<Rightarrow>
               outputTemplatePackage templateRoot cwd (templateTokens (changeCase env) name) s1))"

text \<open>The object \<^verbatim>\<open>tokens\<close> of the bare branch of \<^verbatim>\<open>createProject\<close>.\<close>

definition bareTokens :: "env \<Rightarrow> string \<Rightarrow> tokens" where
  "bareTokens env packageName =
     [(''packageName'', packageName),
      (''diezVersion'', diezVersion env),
      (''typescriptVersion'', typescriptVersion env),
      (''componentName'', pascalCase (changeCase env) (basename packageName))]"

text \<open>
  \<^verbatim>\<open>createProject\<close>, lines 170 to 187: the bundled template is rendered into \<open>root\<close>, or the
  remote one is fetched and rendered by \<open>createTemplateProject\<close>, which is given \<open>cwd\<close>;
  its failure is logged with two warnings and thrown again.
\<close>

definition materializeTemplate :: "env \<Rightarrow> string \<Rightarrow> bool \<Rightarrow> path \<Rightarrow> path \<Rightarrow> state \<Rightarrow> (error + unit) \<times> state" where
  "materializeTemplate env packageName bare cwd root s =
     (if bare then
        outputTemplatePackage (resolve (dirname env) [''..'', ''templates'', ''project'']) root
          (bareTokens env packageName) s
      else
        (case createTemplateProject env cwd packageName s of
           (Inl e, s1) \<Rightarrow>
             (Inl e,
              Log_warning
                [''If you would like to generate an empty project, you can re-run this command with ''
                   @ formatCode env ''--bare'' @ ''.'']
                (Log_warning
                   [''Unable to download template project from the Diez CDN. Are you connected to the internet?'']
                   s1))
         | (Inr u, s1) \<Rightarrow> (Inr u, s1)))"

definition packageManager :: "bool \<Rightarrow> string" where
  "packageManager useYarn = (if useYarn then ''yarn'' else ''npm'')"

definition packageManagerRun :: "bool \<Rightarrow> string" where
  "packageManagerRun useYarn = (if useYarn then ''yarn'' else ''npm run'')"

definition installWarnings :: "env \<Rightarrow> bool \<Rightarrow> log_entry list" where
  "installWarnings env useYarn =
     [Warning [''Unable to install dependencies. Are you connected to the Internet?''],
      Warning [''You may need to run '' @ formatCode env (packageManager useYarn @ '' install'')
                 @ '' before '' @ formatCode env ''diez'' @ '' commands will work.'']]"

definition successReport :: "env \<Rightarrow> bool \<Rightarrow> path \<Rightarrow> path \<Rightarrow> bool \<Rightarrow> log_entry list" where
  "successReport env bare cwd root useYarn =
     [Info [''Success! A new Diez (DS) has been created at '' @ formatComment env (path_str root)
              @ ''.'' @ [CHR 0x0A]],
      Info [''In that directory, the '' @ formatCode env ''diez''
              @ '' command line utility can be invoked using:'' @ [CHR 0x0A] @ ''  ''
              @ formatCode env (packageManagerRun useYarn @ '' diez'') @ [CHR 0x0A]]]
     @ (if bare then
          [Info [''To see a list of available commands, you can run:'' @ [CHR 0x0A] @ ''  ''
                   @ formatCode env (''cd '' @ relative cwd root @ [CHR 0x0A] @ ''  ''
                       @ packageManagerRun useYarn @ '' diez --help'')]]
        else
          [Info [''To get started, we suggest running:'' @ [CHR 0x0A] @ ''  ''
                   @ formatCode env (''cd '' @ relative cwd root @ [CHR 0x0A] @ ''  ''
                       @ packageManagerRun useYarn @ '' demo'') @ [CHR 0x0A]],
           Info [''Check out https://beta.diez.org/getting-started to learn more.'']])"

text \<open>
  \<^verbatim>\<open>createProject\<close>, lines 189 to 221: the install command and the repository
  initialisation are each inside a \<^verbatim>\<open>try\<close> whose \<^verbatim>\<open>catch\<close> does not throw, so this part
  always returns.
\<close>

definition installAndReport :: "env \<Rightarrow> bool \<Rightarrow> path \<Rightarrow> path \<Rightarrow> bool \<Rightarrow> state \<Rightarrow> state" where
  "installAndReport env bare cwd root useYarn s =
     (let s1 = s\<lparr>logged := logged s
                  @ [LoadingStart ''Installing dependencies. This might take a couple of minutes.'']\<rparr>;
          s2 = (if execAsync env (packageManager useYarn @ '' install'') root then s1
                else s1\<lparr>logged := logged s1 @ installWarnings env useYarn\<rparr>);
          s3 = s2\<lparr>logged := logged s2 @ [LoadingStop]\<rparr>;
          s4 = (if initializeGitRepository env root
                then Log_info [''Initialized a Git repository at '' @ path_str root] s3
                else s3)
      in s4\<lparr>logged := logged s4 @ successReport env bare cwd root useYarn\<rparr>)"

definition createProject :: "env \<Rightarrow> string \<Rightarrow> bool \<Rightarrow> path \<Rightarrow> state \<Rightarrow> (error + unit) \<times> state" where
  "createProject env packageName bare cwd s =
     (case validatePackageName env packageName s of
        (Inl e, s1) \<Rightarrow> (Inl e, s1)
      | (Inr u, s1) \<Rightarrow>
          (let useYarn = shouldUseYarn env;
               root = resolve cwd [basename packageName]
           in case validateProjectRoot env root useYarn s1 of
                (Inl e, s2) \<Rightarrow> (Inl e, s2)
              | (Inr u, s2) \<Rightarrow>
                  (case materializeTemplate env packageName bare cwd root s2 of
                     (Inl e, s3) \<Rightarrow> (Inl e, s3)
                   | (Inr u, s3) \<Rightarrow> (Inr (), installAndReport env bare cwd root useYarn s3))))"

subsection \<open>The case conversions\<close>

text \<open>
  Modelled from the spec: the package \<^verbatim>\<open>change-case\<close> is not among the sources. The spec
  names the conversions (camel, pascal, kebab, snake, constant, header, dot, title, lower,
  no-case); the definitions below are these conventions on ASCII names, built as the
  package builds them. \<open>noCaseWith\<close> puts a space between a lower-case letter or digit
  and an upper-case letter that follows it, and between an upper-case letter and an
  upper-case letter followed by a lower-case one; then every run of other characters
  becomes the separator (nothing at either end), and the text is lower-cased.
\<close>

definition is_upper :: "char \<Rightarrow> bool" where
  "is_upper c = (c \<in> set ''ABCDEFGHIJKLMNOPQRSTUVWXYZ'')"

definition is_lower :: "char \<Rightarrow> bool" where
  "is_lower c = (c \<in> set ''abcdefghijklmnopqrstuvwxyz'')"

definition is_digit :: "char \<Rightarrow> bool" where
  "is_digit c = (c \<in> set ''0123456789'')"

definition to_lower :: "char \<Rightarrow> char" where
  "to_lower c =
     (case map_of (zip ''ABCDEFGHIJKLMNOPQRSTUVWXYZ'' ''abcdefghijklmnopqrstuvwxyz'') c of
        Some l \<Rightarrow> l
      | None \<Rightarrow> c)"

definition to_upper :: "char \<Rightarrow> char" where
  "to_upper c =
     (case map_of (zip ''abcdefghijklmnopqrstuvwxyz'' ''ABCDEFGHIJKLMNOPQRSTUVWXYZ'') c of
        Some u \<Rightarrow> u
      | None \<Rightarrow> c)"

fun split_camel :: "string \<Rightarrow> string" where
  "split_camel (a # b # cs) =
     (if (is_lower a \<or> is_digit a) \<and> is_upper b then a # CHR '' '' # b # split_camel cs
      else a # split_camel (b # cs))"
| "split_camel cs = cs"

fun split_camel_upper :: "string \<Rightarrow> string" where
  "split_camel_upper (a # b # c # cs) =
     (if is_upper a \<and> is_upper b \<and> is_lower c
      then a # CHR '' '' # b # c # split_camel_upper cs
      else a # split_camel_upper (b # c # cs))"
| "split_camel_upper cs = cs"

text \<open>The maximal runs of letters and digits; \<open>w\<close> is the run being read.\<close>

fun alnum_words :: "string \<Rightarrow> string \<Rightarrow> string list" where
  "alnum_words w [] = (if w = [] then [] else [w])"
| "alnum_words w (c # cs) =
     (if is_upper c \<or> is_lower c \<or> is_digit c then alnum_words (w @ [c]) cs
      else (if w = [] then [] else [w]) @ alnum_words [] cs)"

definition noCaseWith :: "string \<Rightarrow> string \<Rightarrow> string" where
  "noCaseWith sep s =
     map to_lower (intercalate sep (alnum_words [] (split_camel_upper (split_camel s))))"

text \<open>
  Camel case: in the no-case form a space before a digit becomes an underscore, any other
  space goes and the character behind it is upper-cased.
\<close>

fun camel_join :: "string \<Rightarrow> string" where
  "camel_join (a # b # cs) =
     (if a = CHR '' '' then
        (if is_digit b then CHR ''_'' # camel_join (b # cs) else to_upper b # camel_join cs)
      else a # camel_join (b # cs))"
| "camel_join cs = cs"

definition upperCaseFirst :: "string \<Rightarrow> string" where
  "upperCaseFirst s = (case s of [] \<Rightarrow> [] | c # cs \<Rightarrow> to_upper c # cs)"

text \<open>Upper-cases the character behind every separator.\<close>

fun upper_after :: "char \<Rightarrow> string \<Rightarrow> string" where
  "upper_after sep (a # b # cs) =
     (if a = sep then a # to_upper b # upper_after sep cs
      else a # upper_after sep (b # cs))"
| "upper_after sep cs = cs"

definition changeCaseLib :: change_case where
  "changeCaseLib =
     \<lparr>camelCase = (\<lambda>s. camel_join (noCaseWith '' '' s)),
      constantCase = (\<lambda>s. map to_upper (noCaseWith ''_'' s)),
      dotCase = noCaseWith ''.'',
      headerCase = (\<lambda>s. upperCaseFirst (upper_after (CHR ''-'') (noCaseWith ''-'' s))),
      kebabCase = noCaseWith ''-'',
      lowerCase = map to_lower,
      noCase = noCaseWith '' '',
      pascalCase = (\<lambda>s. upperCaseFirst (camel_join (noCaseWith '' '' s))),
      snakeCase = noCaseWith ''_'',
      titleCase = (\<lambda>s. upperCaseFirst (upper_after (CHR '' '') (noCaseWith '' '' s)))\<rparr>"

subsection \<open>Comparing two file systems\<close>

definition is_file :: "filesystem \<Rightarrow> path \<Rightarrow> bool" where
  "is_file fsys p = (case stat fsys p of Some (File c) \<Rightarrow> True | _ \<Rightarrow> False)"

definition created_dir :: "filesystem \<Rightarrow> filesystem \<Rightarrow> path \<Rightarrow> bool" where
  "created_dir a b p = (stat a p = None \<and> stat b p = Some Dir)"

text \<open>
  \<open>changes_within ds ts a b\<close>: going from \<open>a\<close> to \<open>b\<close>, a path that reads differently
  lies at or below one of the directories \<open>ds\<close>, or it was absent, is now a directory
  and lies on the way to one of the paths \<open>ts\<close>; and every directory of \<open>a\<close> is still
  one in \<open>b\<close>.
\<close>

definition changes_within :: "path list \<Rightarrow> path list \<Rightarrow> filesystem \<Rightarrow> filesystem \<Rightarrow> bool" where
  "changes_within ds ts a b =
     ((\<forall>q. stat b q \<noteq> stat a q \<longrightarrow>
          (\<exists>d \<in> set ds. prefix d q) \<or> (created_dir a b q \<and> (\<exists>t \<in> set ts. prefix q t)))
      \<and> (\<forall>q. stat a q = Some Dir \<longrightarrow> stat b q = Some Dir))"

text \<open>
  Going up from a path, the first path that exists is a regular file. The root directory
  always exists, so the search finds a path.
\<close>

definition file_in_the_way :: "filesystem \<Rightarrow> path \<Rightarrow> bool" where
  "file_in_the_way fsys p =
     (case find (existsSync fsys) (rev (prefixes p)) of
        Some q \<Rightarrow> is_file fsys q
      | None \<Rightarrow> False)"

text \<open>No regular file sits at a path or at one of its ancestors.\<close>

definition no_file_on_path :: "filesystem \<Rightarrow> path \<Rightarrow> bool" where
  "no_file_on_path fsys p = list_all (\<lambda>q. \<not> is_file fsys q) (prefixes p)"

subsection \<open>A concrete run\<close>

text \<open>
  A small file system and environment on which the workflow is evaluated: the working
  directory \<^verbatim>\<open>/work\<close> with a file and an older project, the bundled template below
  \<^verbatim>\<open>/opt/diez/templates/project\<close>, \<^verbatim>\<open>yarn\<close> at hand, an archive of two files, and an
  install command that fails.
\<close>

definition exampleFiles :: filesystem where
  "exampleFiles =
     [([''work''], Dir),
      ([''opt''], Dir),
      ([''opt'', ''diez''], Dir),
      ([''opt'', ''diez'', ''templates''], Dir),
      ([''opt'', ''diez'', ''templates'', ''project''], Dir),
      ([''opt'', ''diez'', ''templates'', ''project'', ''package.json''],
         File ''name: {{packageName}}''),
      ([''work'', ''notes.txt''], File ''keep''),
      ([''work'', ''old''], Dir),
      ([''work'', ''old'', ''package.json''], File ''name: old'')]"

definition exampleState :: state where
  "exampleState = \<lparr>files = exampleFiles, logged = []\<rparr>"

definition exampleEnv :: env where
  "exampleEnv =
     \<lparr>validateNpmPackageName =
        (\<lambda>name. if name = ''node_modules''
           then \<lparr>validForNewPackages = False,
                  errors = Some [''node_modules is a blacklisted name''],
                  warnings = None\<rparr>
           else \<lparr>validForNewPackages = True, errors = None, warnings = None\<rparr>),
      canRunCommand = (\<lambda>command. True),
      spawnSync = (\<lambda>command args. Joined (JString ''; cwd = /work'')),
      downloadStream =
        (\<lambda>url. Stream [([''README.md''], ''# {{nameTitleCase}}''),
                       ([''{{nameKebabCase}}'', ''package.json''], ''name: {{nameKebabCase}}'')]),
      getTempFileName = [''tmp'', ''diez-0''],
      execAsync = (\<lambda>command cwd. False),
      initializeGitRepository = (\<lambda>root. True),
      diezVersion = ''10.0.0'',
      typescriptVersion = ''3.5.2'',
      dirname = [''opt'', ''diez'', ''lib''],
      formatCode = (\<lambda>s. s),
      formatComment = (\<lambda>s. s),
      changeCase = changeCaseLib\<rparr>"

text \<open>The same environment without \<^verbatim>\<open>yarn\<close>.\<close>

definition npmOnlyEnv :: env where
  "npmOnlyEnv = exampleEnv\<lparr>canRunCommand := (\<lambda>command. False)\<rparr>"

text \<open>The same environment with a download that yields no stream.\<close>

definition noStreamEnv :: env where
  "noStreamEnv = exampleEnv\<lparr>downloadStream := (\<lambda>url. NoStream)\<rparr>"

subsection \<open>Lemmas: the regular expression and the lines\<close>

lemma split_lines_nonempty: "split_lines s \<noteq> []"
  by (induction s) (auto split: list.splits)

lemma takeWhile_hd_split_lines:
  "takeWhile (\<lambda>x. \<not> line_terminator x) s = hd (split_lines s)"
  by (induction s) (auto split: list.splits simp: split_lines_nonempty)

lemma hd_split_lines_drop:
  "n \<le> length (hd (split_lines s)) \<Longrightarrow> hd (split_lines (drop n s)) = drop n (hd (split_lines s))"
proof (induction s arbitrary: n)
  case Nil
  then show ?case by simp
next
  case (Cons c cs)
  show ?case
  proof (cases n)
    case 0
    then show ?thesis by simp
  next
    case (Suc k)
    with Cons.prems have nt: "\<not> line_terminator c"
      by (auto split: if_splits)
    obtain l ls where sl: "split_lines cs = l # ls"
      using split_lines_nonempty [of cs] by (cases "split_lines cs") auto
    with Cons.prems Suc nt have "k \<le> length (hd (split_lines cs))" by simp
    from Cons.IH [OF this] show ?thesis
      using Suc nt sl by simp
  qed
qed

lemma prefix_hd_split_lines:
  "prefix ''; cwd = '' s \<longleftrightarrow> prefix ''; cwd = '' (hd (split_lines s))"
proof -
  have nt: "\<forall>x \<in> set ''; cwd = ''. \<not> line_terminator x"
    by (simp add: line_terminator_def)
  have "prefix p s \<longleftrightarrow> prefix p (hd (split_lines s))"
    if "\<forall>x \<in> set p. \<not> line_terminator x" for p
    using that
  proof (induction p arbitrary: s)
    case Nil
    then show ?case by simp
  next
    case (Cons a p)
    show ?case
    proof (cases s)
      case Nil
      then show ?thesis by simp
    next
      case (Cons c cs)
      obtain l ls where sl: "split_lines cs = l # ls"
        using split_lines_nonempty [of cs] by (cases "split_lines cs") auto
      show ?thesis
      proof (cases "line_terminator c")
        case True
        with Cons.prems Cons \<open>s = c # cs\<close> show ?thesis by auto
      next
        case False
        have "prefix p cs \<longleftrightarrow> prefix p (hd (split_lines cs))"
          using Cons.IH Cons.prems by simp
        with False sl \<open>s = c # cs\<close> show ?thesis by simp
      qed
    qed
  qed
  with nt show ?thesis by blast
qed

lemma match_cwd_from_lines:
  "match_cwd_from bol s =
     map_option (drop 8)
       (find (prefix ''; cwd = '') (if bol then split_lines s else tl (split_lines s)))"
proof -
  define P where "P = ''; cwd = ''"
  have lenP: "length P = 8" by (simp add: P_def)
  have step: "match_cwd_from b (c # cs) =
     (if b \<and> prefix P (c # cs)
      then Some (takeWhile (\<lambda>x. \<not> line_terminator x) (drop 8 (c # cs)))
      else match_cwd_from (line_terminator c) cs)" for b c cs
    unfolding P_def by (rule match_cwd_from.simps)
  have hd_iff: "prefix P s \<longleftrightarrow> prefix P (hd (split_lines s))" for s
    unfolding P_def by (rule prefix_hd_split_lines)
  have "match_cwd_from bol s =
     map_option (drop 8) (find (prefix P) (if bol then split_lines s else tl (split_lines s)))"
  proof (induction s arbitrary: bol)
    case Nil
    have "\<not> prefix P []" by (simp add: P_def)
    then show ?case by simp
  next
    case (Cons c cs)
    obtain l ls where sl: "split_lines cs = l # ls"
      using split_lines_nonempty [of cs] by (cases "split_lines cs") auto
    obtain k ks where slc: "split_lines (c # cs) = k # ks"
      using split_lines_nonempty [of "c # cs"] by (cases "split_lines (c # cs)") auto
    have tl_eq: "ks = (if line_terminator c then split_lines cs else tl (split_lines cs))"
      using slc sl by (auto split: if_splits)
    show ?case
    proof (cases "bol \<and> prefix P (c # cs)")
      case True
      then have p: "prefix P k"
        using hd_iff [of "c # cs"] slc by simp
      then have len: "8 \<le> length (hd (split_lines (c # cs)))"
        using prefix_length_le [of P k] lenP slc by simp
      have "takeWhile (\<lambda>x. \<not> line_terminator x) (drop 8 (c # cs)) = drop 8 k"
        using hd_split_lines_drop [OF len] takeWhile_hd_split_lines [of "drop 8 (c # cs)"] slc
        by simp
      with True p slc show ?thesis
        by (simp only: step if_True find.simps option.map simp_thms)
    next
      case False
      have IH: "match_cwd_from (line_terminator c) cs = map_option (drop 8) (find (prefix P) ks)"
        using Cons.IH [of "line_terminator c"] tl_eq by simp
      show ?thesis
      proof (cases bol)
        case True
        with False have "\<not> prefix P k"
          using hd_iff [of "c # cs"] slc by simp
        with True False IH slc show ?thesis
          by (simp only: step if_False if_True find.simps simp_thms)
      next
        case False
        with IH slc show ?thesis
          by (simp only: step if_False list.sel simp_thms)
      qed
    qed
  qed
  then show ?thesis by (simp only: P_def)
qed

lemma match_cwd_lines: "match_cwd out = map_option (drop 8) (cwd_line out)"
  by (simp add: match_cwd_def cwd_line_def match_cwd_from_lines)

subsection \<open>Lemmas: the file system\<close>

lemma stat_update:
  "p \<noteq> [] \<Longrightarrow> stat (AList.update p n fsys) q = (if q = p then Some n else stat fsys q)"
  by (simp add: stat_def update_conv')

lemma stat_None_nonempty: "stat fsys p = None \<Longrightarrow> p \<noteq> []"
  by (auto simp: stat_def)

lemma ensureDirSync_unfold:
  "ensureDirSync fsys p =
     (case stat fsys p of
        Some Dir \<Rightarrow> Inr fsys
      | Some (File c) \<Rightarrow> Inl (SysError ''EEXIST'' p)
      | None \<Rightarrow>
          (case ensureDirSync fsys (butlast p) of
             Inl e \<Rightarrow> Inl (SysError ''ENOTDIR'' p)
           | Inr fsys' \<Rightarrow> Inr (AList.update p Dir fsys')))"
  by (rule ensureDirSync.simps)

declare ensureDirSync.simps [simp del]

lemma ensureDirSync_existing: "stat fsys p = Some Dir \<Longrightarrow> ensureDirSync fsys p = Inr fsys"
  by (subst ensureDirSync_unfold) simp

lemma ensureDirSync_frame:
  "ensureDirSync fsys p = Inr fsys' \<Longrightarrow> stat fsys' q \<noteq> stat fsys q \<Longrightarrow>
     stat fsys q = None \<and> stat fsys' q = Some Dir \<and> prefix q p"
proof (induction fsys p arbitrary: fsys' rule: ensureDirSync.induct)
  case (1 fsys p)
  show ?case
  proof (cases "stat fsys p")
    case None
    then have ne: "p \<noteq> []" by (rule stat_None_nonempty)
    from "1.prems"(1) None obtain mid where
      mid: "ensureDirSync fsys (butlast p) = Inr mid" and fs': "fsys' = AList.update p Dir mid"
      by (subst (asm) ensureDirSync_unfold) (auto split: sum.splits)
    have bp: "prefix (butlast p) p" by (rule prefixeq_butlast)
    show ?thesis
    proof (cases "q = p")
      case True
      with None fs' ne show ?thesis by (simp add: stat_update)
    next
      case False
      with fs' ne "1.prems"(2) have "stat mid q \<noteq> stat fsys q"
        by (simp add: stat_update)
      from "1.IH" [OF None mid this] bp fs' ne False show ?thesis
        by (auto simp: stat_update)
    qed
  next
    case (Some n)
    with "1.prems" show ?thesis
      by (subst (asm) ensureDirSync_unfold) (auto split: node.splits)
  qed
qed

lemma ensureDirSync_isDir: "ensureDirSync fsys p = Inr fsys' \<Longrightarrow> stat fsys' p = Some Dir"
  by (subst (asm) ensureDirSync_unfold)
     (auto split: option.splits node.splits sum.splits simp: stat_update dest: stat_None_nonempty)

lemma ensureDirSync_succeeds:
  "(\<And>q c. prefix q p \<Longrightarrow> stat fsys q \<noteq> Some (File c)) \<Longrightarrow> \<exists>fsys'. ensureDirSync fsys p = Inr fsys'"
proof (induction fsys p rule: ensureDirSync.induct)
  case (1 fsys p)
  show ?case
  proof (cases "stat fsys p")
    case None
    have "\<exists>fsys'. ensureDirSync fsys (butlast p) = Inr fsys'"
    proof (rule "1.IH" [OF None])
      fix q c assume "prefix q (butlast p)"
      then have "prefix q p" by (metis prefix_order.trans prefixeq_butlast)
      then show "stat fsys q \<noteq> Some (File c)" by (rule "1.prems")
    qed
    with None show ?thesis
      by (subst ensureDirSync_unfold) auto
  next
    case (Some n)
    with "1.prems" [of p] show ?thesis
      by (subst ensureDirSync_unfold) (cases n; auto)
  qed
qed

lemma changes_within_refl: "changes_within ds ts a a"
  by (simp add: changes_within_def)

lemma changes_within_mono:
  "changes_within ds ts a b \<Longrightarrow> set ds \<subseteq> set ds' \<Longrightarrow> set ts \<subseteq> set ts' \<Longrightarrow>
     changes_within ds' ts' a b"
  unfolding changes_within_def by (meson subsetD)

lemma changes_within_trans:
  assumes ab: "changes_within ds ts a b" and bc: "changes_within ds ts b c"
  shows "changes_within ds ts a c"
  unfolding changes_within_def
proof (intro conjI allI impI)
  fix q assume "stat a q = Some Dir"
  with ab bc show "stat c q = Some Dir" by (simp add: changes_within_def)
next
  fix q assume ch: "stat c q \<noteq> stat a q"
  show "(\<exists>d\<in>set ds. prefix d q) \<or> (created_dir a c q \<and> (\<exists>t\<in>set ts. prefix q t))"
  proof (cases "stat b q = stat a q")
    case True
    with ch have "stat c q \<noteq> stat b q" by simp
    with bc have "(\<exists>d\<in>set ds. prefix d q) \<or> (created_dir b c q \<and> (\<exists>t\<in>set ts. prefix q t))"
      by (simp add: changes_within_def)
    with True show ?thesis by (auto simp: created_dir_def)
  next
    case False
    with ab have "(\<exists>d\<in>set ds. prefix d q) \<or> (created_dir a b q \<and> (\<exists>t\<in>set ts. prefix q t))"
      by (simp add: changes_within_def)
    moreover have "created_dir a b q \<Longrightarrow> created_dir a c q"
      using bc by (simp add: created_dir_def changes_within_def)
    ultimately show ?thesis by blast
  qed
qed

lemma ensureDirSync_changes_within:
  assumes "ensureDirSync a p = Inr b"
  shows "changes_within [] [p] a b"
  unfolding changes_within_def
proof (intro conjI allI impI)
  fix q assume "stat a q = Some Dir"
  then show "stat b q = Some Dir"
    using ensureDirSync_frame [OF assms, of q] by force
next
  fix q assume "stat b q \<noteq> stat a q"
  from ensureDirSync_frame [OF assms this]
  show "(\<exists>d\<in>set []. prefix d q) \<or> (created_dir a b q \<and> (\<exists>t\<in>set [p]. prefix q t))"
    by (simp add: created_dir_def)
qed

lemma writeFile_frame:
  assumes "writeFile a p c = Inr b" and "stat b q \<noteq> stat a q"
  shows "(q = p \<and> stat b q = Some (File c) \<and> stat a q \<noteq> Some Dir)
         \<or> (q \<noteq> p \<and> stat a q = None \<and> stat b q = Some Dir \<and> prefix q (butlast p))"
proof -
  from assms(1) obtain mid where
    mid: "ensureDirSync a (butlast p) = Inr mid" and nd: "stat mid p \<noteq> Some Dir"
    and b: "b = AList.update p (File c) mid"
    by (auto simp: writeFile_def split: sum.splits if_splits)
  from nd have ne: "p \<noteq> []" by (auto simp: stat_def)
  show ?thesis
  proof (cases "q = p")
    case True
    have "stat a p \<noteq> Some Dir"
      using ensureDirSync_frame [OF mid, of p] nd by force
    with True b ne show ?thesis by (simp add: stat_update)
  next
    case False
    with b ne assms(2) have "stat mid q \<noteq> stat a q" by (simp add: stat_update)
    from ensureDirSync_frame [OF mid this] False b ne show ?thesis
      by (simp add: stat_update)
  qed
qed

lemma writeFile_written: "writeFile a p c = Inr b \<Longrightarrow> stat b p = Some (File c)"
  by (auto simp: writeFile_def stat_def update_conv' split: sum.splits if_splits)

lemma writeFile_changes_within:
  assumes "writeFile a (dst @ rel) c = Inr b"
  shows "changes_within [dst] [dst] a b"
  unfolding changes_within_def
proof (intro conjI allI impI)
  fix q assume "stat a q = Some Dir"
  then show "stat b q = Some Dir"
    using writeFile_frame [OF assms, of q] by force
next
  fix q assume ch: "stat b q \<noteq> stat a q"
  from writeFile_frame [OF assms ch]
  show "(\<exists>d\<in>set [dst]. prefix d q) \<or> (created_dir a b q \<and> (\<exists>t\<in>set [dst]. prefix q t))"
  proof
    assume "q = dst @ rel \<and> stat b q = Some (File c) \<and> stat a q \<noteq> Some Dir"
    then show ?thesis by simp
  next
    assume h: "q \<noteq> dst @ rel \<and> stat a q = None \<and> stat b q = Some Dir
               \<and> prefix q (butlast (dst @ rel))"
    then have "prefix q (dst @ rel)"
      by (meson prefix_order.trans prefixeq_butlast)
    then have "prefix dst q \<or> prefix q dst"
      by (meson prefix_same_cases prefixI)
    with h show ?thesis by (auto simp: created_dir_def)
  qed
qed

lemma writeFiles_changes_within:
  "writeFiles a dst es = (r, b) \<Longrightarrow> changes_within [dst] [dst] a b"
proof (induction es arbitrary: a)
  case Nil
  then show ?case by (simp add: changes_within_refl)
next
  case (Cons e es)
  obtain rel c where e: "e = (rel, c)" by (cases e)
  show ?case
  proof (cases "writeFile a (dst @ rel) c")
    case (Inl err)
    with Cons.prems e show ?thesis by (simp add: changes_within_refl)
  next
    case (Inr mid)
    with Cons.prems e have "writeFiles mid dst es = (r, b)" by simp
    from Cons.IH [OF this] writeFile_changes_within [OF Inr] show ?thesis
      by (rule changes_within_trans [rotated])
  qed
qed

lemma writeFile_keeps_file:
  assumes "writeFile a p c = Inr b" and "is_file a q"
  shows "is_file b q"
proof (cases "stat b q = stat a q")
  case True
  with assms(2) show ?thesis by (simp add: is_file_def)
next
  case False
  from writeFile_frame [OF assms(1) False] assms(2) show ?thesis
    by (auto simp: is_file_def)
qed

lemma writeFiles_keeps_file:
  "writeFiles a dst es = (r, b) \<Longrightarrow> is_file a q \<Longrightarrow> is_file b q"
proof (induction es arbitrary: a)
  case Nil
  then show ?case by simp
next
  case (Cons e es)
  obtain rel c where e: "e = (rel, c)" by (cases e)
  show ?case
  proof (cases "writeFile a (dst @ rel) c")
    case (Inl err)
    with Cons.prems e show ?thesis by simp
  next
    case (Inr mid)
    with Cons.prems e have "writeFiles mid dst es = (r, b)" by simp
    moreover have "is_file mid q" using Inr Cons.prems(2) by (rule writeFile_keeps_file)
    ultimately show ?thesis by (rule Cons.IH)
  qed
qed

lemma writeFiles_written:
  "writeFiles a dst es = (None, b) \<Longrightarrow> (rel, c) \<in> set es \<Longrightarrow> is_file b (dst @ rel)"
proof (induction es arbitrary: a)
  case Nil
  then show ?case by simp
next
  case (Cons e es)
  obtain rel0 c0 where e: "e = (rel0, c0)" by (cases e)
  from Cons.prems(1) e obtain mid where
    w: "writeFile a (dst @ rel0) c0 = Inr mid" and rest: "writeFiles mid dst es = (None, b)"
    by (auto split: sum.splits)
  show ?case
  proof (cases "(rel, c) = e")
    case True
    with e w have "is_file mid (dst @ rel)"
      by (auto simp: is_file_def dest: writeFile_written)
    with rest show ?thesis by (rule writeFiles_keeps_file)
  next
    case False
    with Cons.prems(2) have "(rel, c) \<in> set es" by simp
    with rest show ?thesis by (rule Cons.IH)
  qed
qed

lemma update_absent: "map_of al k = None \<Longrightarrow> AList.update k v al = al @ [(k, v)]"
  by (induction al) (auto split: if_splits)

lemma readTree_update_Dir:
  assumes "map_of a p = None"
  shows "readTree (AList.update p Dir a) src = readTree a src"
proof -
  have "map_of (AList.clearjunk a) p = None"
    using assms by (simp add: map_of_clearjunk)
  then have "AList.clearjunk (AList.update p Dir a) = AList.clearjunk a @ [(p, Dir)]"
    by (simp add: clearjunk_update update_absent)
  then show ?thesis by (simp add: readTree_def)
qed

lemma readTree_ensureDirSync:
  "ensureDirSync a p = Inr b \<Longrightarrow> readTree b src = readTree a src"
proof (induction a p arbitrary: b rule: ensureDirSync.induct)
  case (1 fsys p)
  show ?case
  proof (cases "stat fsys p")
    case None
    then have ne: "p \<noteq> []" by (rule stat_None_nonempty)
    from "1.prems" None obtain mid where
      mid: "ensureDirSync fsys (butlast p) = Inr mid" and b: "b = AList.update p Dir mid"
      by (subst (asm) ensureDirSync_unfold) (auto split: sum.splits)
    have "stat mid p = stat fsys p"
    proof (rule ccontr)
      assume "stat mid p \<noteq> stat fsys p"
      from ensureDirSync_frame [OF mid this] have "prefix p (butlast p)" by simp
      then have "length p \<le> length (butlast p)" by (rule prefix_length_le)
      with ne show False by (cases p rule: rev_cases) auto
    qed
    with None ne have "map_of mid p = None" by (simp add: stat_def)
    with b "1.IH" [OF None mid] show ?thesis by (simp add: readTree_update_Dir)
  next
    case (Some n)
    with "1.prems" show ?thesis
      by (subst (asm) ensureDirSync_unfold) (auto split: node.splits)
  qed
qed

lemma readTree_mem:
  assumes "stat a (src @ rel) = Some (File c)" and "rel \<noteq> []"
  shows "(rel, c) \<in> set (readTree a src)"
proof -
  let ?f = "\<lambda>(p, n). case n of
               File c \<Rightarrow> if strict_prefix src p then [(drop (length src) p, c)] else []
             | Dir \<Rightarrow> []"
  from assms have "map_of (AList.clearjunk a) (src @ rel) = Some (File c)"
    by (simp add: stat_def map_of_clearjunk)
  then have mem: "(src @ rel, File c) \<in> set (AList.clearjunk a)" by (rule map_of_SomeD)
  have "strict_prefix src (src @ rel)" using assms(2) by (simp add: strict_prefix_def)
  then have "?f (src @ rel, File c) = [(rel, c)]" by simp
  then have "(rel, c) \<in> set (?f (src @ rel, File c))" by simp
  with mem have "\<exists>x \<in> set (AList.clearjunk a). (rel, c) \<in> set (?f x)" by (rule rev_bexI)
  then show ?thesis
    unfolding readTree_def by simp
qed

lemma substituteTree_mem:
  assumes "(rel, c) \<in> set tree"
  shows "(map (substitute tk) rel, substitute tk c) \<in> set (substituteTree tk tree)"
proof -
  let ?f = "\<lambda>(rel, c). (map (substitute tk) rel, substitute tk c)"
  have "?f (rel, c) \<in> ?f ` set tree" using assms by (rule imageI)
  then show ?thesis by (simp add: substituteTree_def)
qed

lemma rev_prefixes_nonempty:
  "p \<noteq> [] \<Longrightarrow> rev (prefixes p) = p # rev (prefixes (butlast p))"
proof -
  assume "p \<noteq> []"
  then have "prefixes p = prefixes (butlast p @ [last p])" by simp
  also have "\<dots> = prefixes (butlast p) @ [butlast p @ [last p]]" by (rule prefixes_snoc)
  finally show ?thesis using \<open>p \<noteq> []\<close> by simp
qed

lemma file_in_the_way_absent:
  assumes "stat fsys p = None"
  shows "file_in_the_way fsys p = file_in_the_way fsys (butlast p)"
proof -
  from assms have ne: "p \<noteq> []" by (rule stat_None_nonempty)
  from assms have "\<not> existsSync fsys p" by (simp add: existsSync_def)
  then show ?thesis
    by (simp add: file_in_the_way_def rev_prefixes_nonempty [OF ne])
qed

lemma file_in_the_way_present:
  assumes "stat fsys p = Some n"
  shows "file_in_the_way fsys p = is_file fsys p"
proof (cases "p = []")
  case True
  with assms show ?thesis by (simp add: file_in_the_way_def existsSync_def)
next
  case False
  from assms have "existsSync fsys p" by (simp add: existsSync_def)
  then show ?thesis
    by (simp add: file_in_the_way_def rev_prefixes_nonempty [OF False])
qed

lemma ensureDirSync_file_in_the_way:
  "(file_in_the_way fsys p \<longrightarrow> (\<exists>e. ensureDirSync fsys p = Inl e))
   \<and> (\<not> file_in_the_way fsys p \<longrightarrow> (\<exists>fsys'. ensureDirSync fsys p = Inr fsys'))"
proof (induction fsys p rule: ensureDirSync.induct)
  case (1 fsys p)
  show ?case
  proof (cases "stat fsys p")
    case None
    from "1.IH" [OF None] file_in_the_way_absent [OF None] None show ?thesis
      by (subst (1 2) ensureDirSync_unfold) auto
  next
    case (Some n)
    from file_in_the_way_present [OF Some] Some show ?thesis
      by (subst (1 2) ensureDirSync_unfold) (cases n; simp add: is_file_def)
  qed
qed

lemma ensureDirSync_blocked:
  assumes "stat fsys p = None" and "file_in_the_way fsys p"
  shows "ensureDirSync fsys p = Inl (SysError ''ENOTDIR'' p)"
proof -
  from assms have "file_in_the_way fsys (butlast p)" by (simp add: file_in_the_way_absent)
  then obtain e where "ensureDirSync fsys (butlast p) = Inl e"
    using ensureDirSync_file_in_the_way by blast
  with assms(1) show ?thesis by (subst ensureDirSync_unfold) simp
qed

subsection \<open>Lemmas: paths\<close>

lemma no_file_on_path_iff: "no_file_on_path fsys p \<longleftrightarrow> (\<forall>q. prefix q p \<longrightarrow> \<not> is_file fsys q)"
  by (auto simp: no_file_on_path_def list_all_iff in_set_prefixes)

lemma join_path_single:
  "join_path root [''package.json''] = root @ [''package.json'']"
  by (simp add: join_path_def step_argument_def step_segment_def)

subsection \<open>Lemmas: the workflow\<close>

lemma is_file_iff: "is_file fsys p \<longleftrightarrow> existsSync fsys p \<and> \<not> isDirectory fsys p"
  by (auto simp: is_file_def existsSync_def isDirectory_def split: option.splits node.splits)

lemma no_file_ensureDirSync:
  assumes "no_file_on_path fsys p"
  shows "\<exists>fsys'. ensureDirSync fsys p = Inr fsys'"
proof (rule ensureDirSync_succeeds)
  fix q c assume "prefix q p"
  with assms have "\<not> is_file fsys q" by (simp add: no_file_on_path_iff)
  then show "stat fsys q \<noteq> Some (File c)" by (auto simp: is_file_def)
qed

lemma validateProjectRoot_after_ensure:
  assumes "\<not> is_file (files s) root" and "ensureDirSync (files s) root = Inr fsys"
  shows "validateProjectRoot env root useYarn s =
           (if existsSync fsys (root @ [''package.json''])
            then Inl (Error (''A Node.js project already exists at '' @ path_str root @ ''.''))
            else if useYarn then Inr ()
            else if \<not> canUseNpm (spawnSync env ''npm'' [''config'', ''list'']) (path_str root)
            then Inl (Error (''Unable to start an NPM process in '' @ path_str root @ ''.''))
            else Inr (),
            s\<lparr>files := fsys\<rparr>)"
  using assms by (simp add: validateProjectRoot_def is_file_iff join_path_single Let_def)

lemma validateProjectRoot_changes_within:
  assumes "validateProjectRoot env root useYarn s = (r, s')"
  shows "changes_within [] [root] (files s) (files s') \<and> logged s' = logged s
         \<and> (r = Inr () \<longrightarrow> isDirectory (files s') root)"
proof (cases "is_file (files s) root")
  case True
  with assms show ?thesis
    by (auto simp: validateProjectRoot_def is_file_iff changes_within_refl)
next
  case nf: False
  show ?thesis
  proof (cases "ensureDirSync (files s) root")
    case (Inl e)
    with assms nf show ?thesis
      by (auto simp: validateProjectRoot_def is_file_iff changes_within_refl)
  next
    case (Inr fsys)
    from assms validateProjectRoot_after_ensure [OF nf Inr, of env useYarn]
    have "s' = s\<lparr>files := fsys\<rparr>" by simp
    with ensureDirSync_changes_within [OF Inr] ensureDirSync_isDir [OF Inr] show ?thesis
      by (simp add: isDirectory_def)
  qed
qed

lemma validatePackageName_result:
  "validatePackageName env packageName s = (r, s') \<Longrightarrow>
     files s' = files s
     \<and> (validForNewPackages (validateNpmPackageName env packageName) \<longrightarrow> r = Inr () \<and> s' = s)
     \<and> (\<not> validForNewPackages (validateNpmPackageName env packageName) \<longrightarrow>
          r = Inl (Error (''Unable to create project with name '' @ packageName @ ''.'')))"
  by (auto simp: validatePackageName_def Let_def Log_warning_def split: if_splits)

lemma createProject_valid:
  assumes "validForNewPackages (validateNpmPackageName env packageName)"
  shows "createProject env packageName bare cwd s =
           (case validateProjectRoot env (resolve cwd [basename packageName]) (shouldUseYarn env) s of
              (Inl e, s2) \<Rightarrow> (Inl e, s2)
            | (Inr u, s2) \<Rightarrow>
                (case materializeTemplate env packageName bare cwd
                        (resolve cwd [basename packageName]) s2 of
                   (Inl e, s3) \<Rightarrow> (Inl e, s3)
                 | (Inr u, s3) \<Rightarrow>
                     (Inr (), installAndReport env bare cwd (resolve cwd [basename packageName])
                                (shouldUseYarn env) s3)))"
  using assms by (simp add: createProject_def validatePackageName_def Let_def)

lemma createProject_invalid:
  assumes "\<not> validForNewPackages (validateNpmPackageName env packageName)"
  shows "createProject env packageName bare cwd s = validatePackageName env packageName s"
  using assms by (simp add: createProject_def validatePackageName_def Let_def)

lemma validateProjectRoot_npm_unusable:
  assumes "\<not> canUseNpm (spawnSync env ''npm'' [''config'', ''list'']) (path_str root)"
    and "validateProjectRoot env root False s = (r, s')"
  shows "(\<exists>e. r = Inl e)
         \<and> (\<forall>q. stat (files s') q \<noteq> stat (files s) q \<longrightarrow>
                created_dir (files s) (files s') q \<and> prefix q root)"
proof (cases "is_file (files s) root")
  case True
  with assms(2) show ?thesis by (auto simp: validateProjectRoot_def is_file_iff)
next
  case nf: False
  show ?thesis
  proof (cases "ensureDirSync (files s) root")
    case (Inl e)
    with assms(2) nf show ?thesis by (auto simp: validateProjectRoot_def is_file_iff)
  next
    case (Inr fsys)
    from assms validateProjectRoot_after_ensure [OF nf Inr, of env False]
    have "(\<exists>e. r = Inl e) \<and> s' = s\<lparr>files := fsys\<rparr>" by (auto split: if_splits)
    with ensureDirSync_frame [OF Inr] show ?thesis by (simp add: created_dir_def)
  qed
qed

lemma createTemplateProject_no_stream:
  assumes "downloadStream env (examplesProjectUrl env) = NoStream"
  shows "createTemplateProject env cwd name s =
           (case ensureDirSync (files s) (resolve (getTempFileName env) [''examples'']) of
              Inl e \<Rightarrow> (Inl e, s)
            | Inr fsys \<Rightarrow>
                (Inl (Error ''Unable to download template project from examples.diez.org. Please try again.''),
                 s\<lparr>files := fsys,
                   logged := logged s @ [Info [''Downloading template project from the Diez CDN...'']]\<rparr>))"
  using assms
  by (simp add: createTemplateProject_def downloadAndExtractProject_def Log_info_def Let_def
      split: sum.splits)

lemma materializeTemplate_no_stream:
  assumes "downloadStream env (examplesProjectUrl env) = NoStream"
  shows "\<exists>e s1. createTemplateProject env cwd packageName s = (Inl e, s1)
           \<and> materializeTemplate env packageName False cwd root s =
               (Inl e,
                s1\<lparr>logged := logged s1 @
                   [Warning [''Unable to download template project from the Diez CDN. Are you connected to the internet?''],
                    Warning [''If you would like to generate an empty project, you can re-run this command with ''
                               @ formatCode env ''--bare'' @ ''.'']]\<rparr>)"
  by (cases "ensureDirSync (files s) (resolve (getTempFileName env) [''examples''])")
     (simp_all add: createTemplateProject_no_stream [OF assms] materializeTemplate_def
        Log_warning_def)

lemma outputTemplatePackage_frame:
  assumes "outputTemplatePackage src dst tk s = (r, s')"
  shows "changes_within [dst] [dst] (files s) (files s') \<and> logged s' = logged s"
proof -
  obtain e b where w: "writeFiles (files s) dst (substituteTree tk (readTree (files s) src)) = (e, b)"
    by (cases "writeFiles (files s) dst (substituteTree tk (readTree (files s) src))")
  with assms have "s' = s\<lparr>files := b\<rparr>"
    by (cases e) (auto simp: outputTemplatePackage_def)
  with writeFiles_changes_within [OF w] show ?thesis by simp
qed

lemma outputTemplatePackage_written:
  assumes "outputTemplatePackage src dst tk s = (Inr (), s')"
    and "(rel, c) \<in> set (readTree (files s) src)"
  shows "is_file (files s') (dst @ map (substitute tk) rel)"
proof -
  from assms(1) have w: "writeFiles (files s) dst (substituteTree tk (readTree (files s) src))
                           = (None, files s')"
    by (auto simp: outputTemplatePackage_def split: prod.splits option.splits)
  from assms(2) have "(map (substitute tk) rel, substitute tk c)
                        \<in> set (substituteTree tk (readTree (files s) src))"
    by (rule substituteTree_mem)
  with w show ?thesis by (rule writeFiles_written)
qed

lemma installAndReport_files: "files (installAndReport env bare cwd root useYarn s) = files s"
  by (simp add: installAndReport_def Log_info_def Let_def)

lemma validateProjectRoot_ok:
  assumes "validateProjectRoot env root useYarn s = (Inr (), s2)"
  shows "ensureDirSync (files s) root = Inr (files s2)"
proof -
  from assms have nf: "\<not> is_file (files s) root"
    by (auto simp: validateProjectRoot_def is_file_iff split: if_splits)
  from assms nf obtain fsys where e: "ensureDirSync (files s) root = Inr fsys"
    by (cases "ensureDirSync (files s) root") (auto simp: validateProjectRoot_def is_file_iff)
  from assms validateProjectRoot_after_ensure [OF nf e, of env useYarn]
  have "s2 = s\<lparr>files := fsys\<rparr>" by simp
  with e show ?thesis by simp
qed

lemma createProject_success:
  assumes "createProject env packageName bare cwd s = (Inr (), s')"
  shows "\<exists>s2 s3.
           validateProjectRoot env (resolve cwd [basename packageName]) (shouldUseYarn env) s
             = (Inr (), s2)
           \<and> materializeTemplate env packageName bare cwd (resolve cwd [basename packageName]) s2
               = (Inr (), s3)
           \<and> files s' = files s3"
proof (cases "validForNewPackages (validateNpmPackageName env packageName)")
  case True
  from assms show ?thesis
    unfolding createProject_valid [OF True]
    by (auto split: prod.splits sum.splits simp: installAndReport_files)
next
  case False
  obtain r0 s0 where p: "validatePackageName env packageName s = (r0, s0)"
    by (cases "validatePackageName env packageName s")
  from validatePackageName_result [OF p] False p assms show ?thesis
    by (simp add: createProject_invalid)
qed


text \<open>
  The bare branch renders the bundled template into the root: after a successful bare
  run, a path that reads differently lies at or below the root, or is a missing ancestor
  of the root that was created as a directory; and every file of the bundled template
  exists below the root, at its rendered path.
\<close>

lemma createProject_bare_writes:
  assumes "createProject env packageName True cwd s = (Inr (), s')"
  shows "(\<forall>q. stat (files s') q \<noteq> stat (files s) q \<longrightarrow>
             prefix (resolve cwd [basename packageName]) q
             \<or> (created_dir (files s) (files s') q
                 \<and> prefix q (resolve cwd [basename packageName])))
         \<and> (\<forall>rel c. (rel, c) \<in> set (readTree (files s)
                                     (resolve (dirname env) [''..'', ''templates'', ''project'']))
              \<longrightarrow> is_file (files s')
                    (resolve cwd [basename packageName]
                       @ map (substitute (bareTokens env packageName)) rel))"
proof -
  let ?root = "resolve cwd [basename packageName]"
  let ?b = "resolve (dirname env) [''..'', ''templates'', ''project'']"
  from createProject_success [OF assms] obtain s2 s3 where
    v: "validateProjectRoot env ?root (shouldUseYarn env) s = (Inr (), s2)"
    and m: "materializeTemplate env packageName True cwd ?root s2 = (Inr (), s3)"
    and f: "files s' = files s3"
    by blast
  from validateProjectRoot_changes_within [OF v]
  have a: "changes_within [] [?root] (files s) (files s2)" by simp
  from m have o: "outputTemplatePackage ?b ?root (bareTokens env packageName) s2 = (Inr (), s3)"
    by (simp add: materializeTemplate_def)
  have "changes_within [?root] [?root] (files s) (files s2)"
    using a by (rule changes_within_mono) simp_all
  moreover have "changes_within [?root] [?root] (files s2) (files s3)"
    using outputTemplatePackage_frame [OF o] by simp
  ultimately have "changes_within [?root] [?root] (files s) (files s')"
    unfolding f by (rule changes_within_trans)
  then have frame: "\<forall>q. stat (files s') q \<noteq> stat (files s) q \<longrightarrow>
       prefix ?root q \<or> (created_dir (files s) (files s') q \<and> prefix q ?root)"
    by (simp add: changes_within_def)
  have "readTree (files s2) ?b = readTree (files s) ?b"
    using validateProjectRoot_ok [OF v] by (rule readTree_ensureDirSync)
  with outputTemplatePackage_written [OF o] f frame show ?thesis by simp
qed

subsection \<open>Lemmas: token substitution\<close>

lemma substitute_no_placeholder: "\<not> has_placeholder tk s \<Longrightarrow> substitute tk s = s"
proof (induction s)
  case Nil
  show ?case by simp
next
  case (Cons c cs)
  from Cons.prems have "match_placeholder tk (c # cs) = None"
    by (cases "match_placeholder tk (c # cs)") auto
  moreover from Cons have "substitute tk cs = cs" by simp
  ultimately show ?case by simp
qed

lemma substituteTree_no_placeholder:
  assumes "\<not> tree_has_placeholder tk tree"
  shows "substituteTree tk tree = tree"
proof -
  have "(\<lambda>(rel, c). (map (substitute tk) rel, substitute tk c)) e = e" if "e \<in> set tree" for e
  proof -
    obtain rel c where e: "e = (rel, c)" by (cases e)
    with assms that have "\<not> list_ex (has_placeholder tk) rel" and "\<not> has_placeholder tk c"
      by (auto simp: tree_has_placeholder_def list_ex_iff)
    then have "map (substitute tk) rel = rel" and "substitute tk c = c"
      by (auto simp: list_ex_iff substitute_no_placeholder intro: map_idI)
    with e show ?thesis by simp
  qed
  then show ?thesis unfolding substituteTree_def by (rule map_idI)
qed

subsection \<open>Claims\<close>

text \<open>
  C1, as amended. When \<^verbatim>\<open>yarn\<close> is not selected and \<^verbatim>\<open>canUseNpm\<close> is false for the root,
  \<^verbatim>\<open>createProject\<close> fails, and no regular file is written: a path that reads differently
  afterwards was absent, is now a directory, and is the root or one of its ancestors.
  When the name is valid and the earlier checks of the root pass, the error is the one
  about the NPM process and the root directory exists at that moment.
\<close>

theorem createProject_npm_unusable:
  assumes "\<not> shouldUseYarn env"
    and "\<not> canUseNpm (spawnSync env ''npm'' [''config'', ''list''])
             (path_str (resolve cwd [basename packageName]))"
  shows "(\<exists>e. fst (createProject env packageName bare cwd s) = Inl e)
         \<and> (\<forall>q. stat (files (snd (createProject env packageName bare cwd s))) q \<noteq> stat (files s) q \<longrightarrow>
                created_dir (files s) (files (snd (createProject env packageName bare cwd s))) q
                \<and> prefix q (resolve cwd [basename packageName]))
         \<and> (validForNewPackages (validateNpmPackageName env packageName)
              \<and> no_file_on_path (files s) (resolve cwd [basename packageName])
              \<and> \<not> existsSync (files s) (join_path (resolve cwd [basename packageName]) [''package.json''])
            \<longrightarrow> fst (createProject env packageName bare cwd s)
                  = Inl (Error (''Unable to start an NPM process in ''
                                  @ path_str (resolve cwd [basename packageName]) @ ''.''))
                \<and> isDirectory (files (snd (createProject env packageName bare cwd s)))
                      (resolve cwd [basename packageName]))"
proof -
  let ?root = "resolve cwd [basename packageName]"
  let ?run = "createProject env packageName bare cwd s"
  obtain r s2 where v: "validateProjectRoot env ?root False s = (r, s2)"
    by (cases "validateProjectRoot env ?root False s")
  note u = validateProjectRoot_npm_unusable [OF assms(2) v]
  then obtain e where r: "r = Inl e" by blast
  have first: "(\<exists>e. fst ?run = Inl e)
         \<and> (\<forall>q. stat (files (snd ?run)) q \<noteq> stat (files s) q \<longrightarrow>
                created_dir (files s) (files (snd ?run)) q \<and> prefix q ?root)"
  proof (cases "validForNewPackages (validateNpmPackageName env packageName)")
    case True
    with assms(1) v r have "?run = (Inl e, s2)" by (simp add: createProject_valid)
    with u show ?thesis by simp
  next
    case False
    obtain r0 s0 where p: "validatePackageName env packageName s = (r0, s0)"
      by (cases "validatePackageName env packageName s")
    from validatePackageName_result [OF p] False p show ?thesis
      by (simp add: createProject_invalid)
  qed
  have second: "fst ?run = Inl (Error (''Unable to start an NPM process in '' @ path_str ?root @ ''.''))
                \<and> isDirectory (files (snd ?run)) ?root"
    if h: "validForNewPackages (validateNpmPackageName env packageName)
           \<and> no_file_on_path (files s) ?root
           \<and> \<not> existsSync (files s) (join_path ?root [''package.json''])"
  proof -
    from h have nf: "\<not> is_file (files s) ?root" by (simp add: no_file_on_path_iff)
    from h obtain fsys where en: "ensureDirSync (files s) ?root = Inr fsys"
      using no_file_ensureDirSync by blast
    have "stat fsys (?root @ [''package.json'']) = stat (files s) (?root @ [''package.json''])"
    proof (rule ccontr)
      assume "stat fsys (?root @ [''package.json'']) \<noteq> stat (files s) (?root @ [''package.json''])"
      from ensureDirSync_frame [OF en this] show False by simp
    qed
    with h have "\<not> existsSync fsys (?root @ [''package.json''])"
      by (simp add: existsSync_def join_path_single)
    with assms h ensureDirSync_isDir [OF en] show ?thesis
      by (simp add: createProject_valid validateProjectRoot_after_ensure [OF nf en] isDirectory_def)
  qed
  from first second show ?thesis by blast
qed

theorem createProject_npm_unusable_witness:
  "\<not> shouldUseYarn npmOnlyEnv
   \<and> \<not> canUseNpm (spawnSync npmOnlyEnv ''npm'' [''config'', ''list''])
         (path_str (resolve [''work''] [basename ''app'']))
   \<and> validForNewPackages (validateNpmPackageName npmOnlyEnv ''app'')
   \<and> no_file_on_path (files exampleState) (resolve [''work''] [basename ''app''])
   \<and> \<not> existsSync (files exampleState)
         (join_path (resolve [''work''] [basename ''app'']) [''package.json''])
   \<and> fst (createProject npmOnlyEnv ''app'' False [''work''] exampleState)
       = Inl (Error ''Unable to start an NPM process in /work/app.'')
   \<and> isDirectory (files (snd (createProject npmOnlyEnv ''app'' False [''work''] exampleState)))
        [''work'', ''app'']
   \<and> stat (files (snd (createProject npmOnlyEnv ''app'' False [''work''] exampleState)))
        [''work'', ''app'']
       \<noteq> stat (files exampleState) [''work'', ''app'']
   \<and> created_dir (files exampleState)
        (files (snd (createProject npmOnlyEnv ''app'' False [''work''] exampleState)))
        [''work'', ''app'']"
proof -
  have root: "resolve [''work''] [basename ''app''] = [''work'', ''app'']"
    by (simp add: resolve_def basename_def step_argument_def step_segment_def)
  have y: "\<not> shouldUseYarn npmOnlyEnv"
    by (simp add: shouldUseYarn_def npmOnlyEnv_def exampleEnv_def)
  have n: "\<not> canUseNpm (spawnSync npmOnlyEnv ''npm'' [''config'', ''list''])
             (path_str (resolve [''work''] [basename ''app'']))"
    by (simp add: root npmOnlyEnv_def exampleEnv_def canUseNpm_def match_cwd_def path_str_def
        line_terminator_def)
  have h: "validForNewPackages (validateNpmPackageName npmOnlyEnv ''app'')
           \<and> no_file_on_path (files exampleState) (resolve [''work''] [basename ''app''])
           \<and> \<not> existsSync (files exampleState)
                 (join_path (resolve [''work''] [basename ''app'']) [''package.json''])"
    by (simp add: root npmOnlyEnv_def exampleEnv_def exampleState_def exampleFiles_def
        no_file_on_path_def is_file_def stat_def existsSync_def join_path_single)
  from createProject_npm_unusable [OF y n, of False exampleState, THEN conjunct2, THEN conjunct2,
      rule_format, OF h]
  have "fst (createProject npmOnlyEnv ''app'' False [''work''] exampleState)
          = Inl (Error ''Unable to start an NPM process in /work/app.'')
        \<and> isDirectory (files (snd (createProject npmOnlyEnv ''app'' False [''work''] exampleState)))
             [''work'', ''app'']"
    by (simp add: root path_str_def)
  moreover have ch: "stat (files (snd (createProject npmOnlyEnv ''app'' False [''work''] exampleState)))
        [''work'', ''app'']
       \<noteq> stat (files exampleState) [''work'', ''app'']"
    by code_simp
  moreover from createProject_npm_unusable [OF y n, of False exampleState, THEN conjunct2,
      THEN conjunct1, rule_format, OF ch]
  have "created_dir (files exampleState)
        (files (snd (createProject npmOnlyEnv ''app'' False [''work''] exampleState)))
        [''work'', ''app'']"
    by simp
  ultimately show ?thesis using y n h by simp
qed

text \<open>
  The file system is not unchanged when that error is thrown: the root directory, absent
  before, has been created by \<^verbatim>\<open>ensureDirSync\<close>, which runs before the probe.
\<close>

theorem createProject_npm_unusable_counterexample:
  "\<not> shouldUseYarn npmOnlyEnv
   \<and> \<not> canUseNpm (spawnSync npmOnlyEnv ''npm'' [''config'', ''list'']) ''/work/app''
   \<and> resolve [''work''] [basename ''app''] = [''work'', ''app'']
   \<and> path_str [''work'', ''app''] = ''/work/app''
   \<and> fst (createProject npmOnlyEnv ''app'' False [''work''] exampleState)
       = Inl (Error ''Unable to start an NPM process in /work/app.'')
   \<and> stat (files exampleState) [''work'', ''app''] = None
   \<and> stat (files (snd (createProject npmOnlyEnv ''app'' False [''work''] exampleState)))
        [''work'', ''app''] = Some Dir
   \<and> files (snd (createProject npmOnlyEnv ''app'' False [''work''] exampleState))
       \<noteq> files exampleState"
  by code_simp

text \<open>
  C2. When the validator does not accept the name for a new package, \<^verbatim>\<open>createProject\<close>
  throws the error of \<^verbatim>\<open>validatePackageName\<close> and the file system is what it was: no
  directory is created.
\<close>

theorem createProject_invalid_name:
  assumes "\<not> validForNewPackages (validateNpmPackageName env packageName)"
  shows "fst (createProject env packageName bare cwd s)
           = Inl (Error (''Unable to create project with name '' @ packageName @ ''.''))
         \<and> files (snd (createProject env packageName bare cwd s)) = files s"
  using assms
  by (simp add: createProject_def validatePackageName_def Let_def Log_warning_def)

theorem createProject_invalid_name_witness:
  "\<not> validForNewPackages (validateNpmPackageName exampleEnv ''node_modules'')
   \<and> fst (createProject exampleEnv ''node_modules'' True [''work''] exampleState)
       = Inl (Error ''Unable to create project with name node_modules.'')
   \<and> files (snd (createProject exampleEnv ''node_modules'' True [''work''] exampleState))
       = files exampleState"
proof -
  have h: "\<not> validForNewPackages (validateNpmPackageName exampleEnv ''node_modules'')"
    by (simp add: exampleEnv_def)
  from createProject_invalid_name [OF h, of True "[''work'']" exampleState] h
  show ?thesis by simp
qed

text \<open>
  C3. A successful run is to write the project tree at the root,
  \<^verbatim>\<open><cwd>/<basename(packageName)>\<close>, and nothing outside it but the scratch directory. The
  bare branch gives the root to \<^verbatim>\<open>outputTemplatePackage\<close>; the remote branch gives it
  \<open>cwd\<close>, while the root is the directory that was validated and is the one where the
  install command runs and that the success report names. The run below is remote, in
  \<^verbatim>\<open>/work\<close>, with the name \<^verbatim>\<open>my_app\<close>. It returns without an error and reports the project
  at \<^verbatim>\<open>/work/my_app\<close>. The files of the archive are at \<^verbatim>\<open>/work/README.md\<close> and
  \<^verbatim>\<open>/work/my-app/package.json\<close>, outside the root and outside the scratch directory, and
  the root holds no \<^verbatim>\<open>package.json\<close>. The bare run with the same name writes its
  \<^verbatim>\<open>package.json\<close> below the root.
\<close>

theorem createProject_remote_writes_outside_root:
  "fst (createProject exampleEnv ''my_app'' False [''work''] exampleState) = Inr ()
   \<and> resolve [''work''] [basename ''my_app''] = [''work'', ''my_app'']
   \<and> resolve (getTempFileName exampleEnv) [''examples''] = [''tmp'', ''diez-0'', ''examples'']
   \<and> Info [''Success! A new Diez (DS) has been created at /work/my_app.'' @ [CHR 0x0A]]
        \<in> set (logged (snd (createProject exampleEnv ''my_app'' False [''work''] exampleState)))
   \<and> stat (files exampleState) [''work'', ''README.md''] = None
   \<and> stat (files (snd (createProject exampleEnv ''my_app'' False [''work''] exampleState)))
        [''work'', ''README.md''] = Some (File ''# My App'')
   \<and> \<not> prefix [''work'', ''my_app''] [''work'', ''README.md'']
   \<and> \<not> prefix [''tmp'', ''diez-0'', ''examples''] [''work'', ''README.md'']
   \<and> stat (files exampleState) [''work'', ''my-app'', ''package.json''] = None
   \<and> stat (files (snd (createProject exampleEnv ''my_app'' False [''work''] exampleState)))
        [''work'', ''my-app'', ''package.json''] = Some (File ''name: my-app'')
   \<and> \<not> prefix [''work'', ''my_app''] [''work'', ''my-app'', ''package.json'']
   \<and> \<not> prefix [''tmp'', ''diez-0'', ''examples''] [''work'', ''my-app'', ''package.json'']
   \<and> stat (files (snd (createProject exampleEnv ''my_app'' False [''work''] exampleState)))
        [''work'', ''my_app''] = Some Dir
   \<and> stat (files (snd (createProject exampleEnv ''my_app'' False [''work''] exampleState)))
        [''work'', ''my_app'', ''package.json''] = None
   \<and> fst (createProject exampleEnv ''my_app'' True [''work''] exampleState) = Inr ()
   \<and> stat (files (snd (createProject exampleEnv ''my_app'' True [''work''] exampleState)))
        [''work'', ''my_app'', ''package.json''] = Some (File ''name: my_app'')"
  by code_simp

text \<open>
  C4. In a non-bare run whose download yields no stream, \<^verbatim>\<open>createProject\<close> throws. When
  the name and the root have passed their checks, the last two log entries are the
  warnings that ask about the connection and suggest the flag \<^verbatim>\<open>--bare\<close>; and when
  the scratch directory could be made, the error thrown is the one of
  \<^verbatim>\<open>downloadAndExtractProject\<close>, which says to try again, and the file system is the
  one left by making the scratch directory: no project has been written.
\<close>

theorem createProject_no_stream:
  assumes "\<not> bare" and "downloadStream env (examplesProjectUrl env) = NoStream"
  shows "(\<exists>e. fst (createProject env packageName bare cwd s) = Inl e)
         \<and> (\<forall>s2. validForNewPackages (validateNpmPackageName env packageName)
                \<and> validateProjectRoot env (resolve cwd [basename packageName]) (shouldUseYarn env) s
                    = (Inr (), s2)
              \<longrightarrow>
                (\<exists>before. logged (snd (createProject env packageName bare cwd s)) = before @
                   [Warning [''Unable to download template project from the Diez CDN. Are you connected to the internet?''],
                    Warning [''If you would like to generate an empty project, you can re-run this command with ''
                               @ formatCode env ''--bare'' @ ''.'']])
                \<and> (\<forall>fsys. ensureDirSync (files s2) (resolve (getTempFileName env) [''examples''])
                             = Inr fsys
                     \<longrightarrow> fst (createProject env packageName bare cwd s)
                           = Inl (Error ''Unable to download template project from examples.diez.org. Please try again.'')
                         \<and> files (snd (createProject env packageName bare cwd s)) = fsys))"
proof -
  let ?root = "resolve cwd [basename packageName]"
  let ?run = "createProject env packageName bare cwd s"
  let ?w = "[Warning [''Unable to download template project from the Diez CDN. Are you connected to the internet?''],
             Warning [''If you would like to generate an empty project, you can re-run this command with ''
                        @ formatCode env ''--bare'' @ ''.'']]"
  have run: "\<exists>e s1. createTemplateProject env cwd packageName s2 = (Inl e, s1)
               \<and> ?run = (Inl e, s1\<lparr>logged := logged s1 @ ?w\<rparr>)"
    if "validForNewPackages (validateNpmPackageName env packageName)"
      and "validateProjectRoot env ?root (shouldUseYarn env) s = (Inr (), s2)" for s2
    using that assms(1) materializeTemplate_no_stream [OF assms(2), of cwd packageName s2 ?root]
    by (auto simp: createProject_valid)
  have fails: "\<exists>e. fst ?run = Inl e"
  proof (cases "validForNewPackages (validateNpmPackageName env packageName)")
    case True
    obtain r s2 where v: "validateProjectRoot env ?root (shouldUseYarn env) s = (r, s2)"
      by (cases "validateProjectRoot env ?root (shouldUseYarn env) s")
    show ?thesis
    proof (cases r)
      case (Inl e)
      with True v show ?thesis by (simp add: createProject_valid)
    next
      case (Inr u)
      with run [OF True] v show ?thesis by auto
    qed
  next
    case False
    obtain r0 s0 where p: "validatePackageName env packageName s = (r0, s0)"
      by (cases "validatePackageName env packageName s")
    from validatePackageName_result [OF p] False p show ?thesis
      by (simp add: createProject_invalid)
  qed
  have rest: "(\<exists>before. logged (snd ?run) = before @ ?w)
              \<and> (\<forall>fsys. ensureDirSync (files s2) (resolve (getTempFileName env) [''examples''])
                           = Inr fsys
                   \<longrightarrow> fst ?run
                         = Inl (Error ''Unable to download template project from examples.diez.org. Please try again.'')
                       \<and> files (snd ?run) = fsys)"
    if h: "validForNewPackages (validateNpmPackageName env packageName)
           \<and> validateProjectRoot env ?root (shouldUseYarn env) s = (Inr (), s2)" for s2
  proof -
    from h run [of s2] obtain e s1 where
      c: "createTemplateProject env cwd packageName s2 = (Inl e, s1)"
      and r: "?run = (Inl e, s1\<lparr>logged := logged s1 @ ?w\<rparr>)"
      by blast
    have "\<exists>before. logged (snd ?run) = before @ ?w" by (simp add: r)
    moreover have "fst ?run
            = Inl (Error ''Unable to download template project from examples.diez.org. Please try again.'')
          \<and> files (snd ?run) = fsys"
      if "ensureDirSync (files s2) (resolve (getTempFileName env) [''examples'']) = Inr fsys"
      for fsys
      using c that by (auto simp: r createTemplateProject_no_stream [OF assms(2)])
    ultimately show ?thesis by blast
  qed
  from fails rest show ?thesis by blast
qed

theorem createProject_no_stream_witness:
  "downloadStream noStreamEnv (examplesProjectUrl noStreamEnv) = NoStream
   \<and> validForNewPackages (validateNpmPackageName noStreamEnv ''app'')
   \<and> fst (validateProjectRoot noStreamEnv (resolve [''work''] [basename ''app''])
             (shouldUseYarn noStreamEnv) exampleState) = Inr ()
   \<and> fst (createProject noStreamEnv ''app'' False [''work''] exampleState)
       = Inl (Error ''Unable to download template project from examples.diez.org. Please try again.'')
   \<and> logged (snd (createProject noStreamEnv ''app'' False [''work''] exampleState))
       = [Info [''Downloading template project from the Diez CDN...''],
          Warning [''Unable to download template project from the Diez CDN. Are you connected to the internet?''],
          Warning [''If you would like to generate an empty project, you can re-run this command with --bare.'']]"
proof -
  define s2 where
    "s2 = snd (validateProjectRoot noStreamEnv (resolve [''work''] [basename ''app''])
                 (shouldUseYarn noStreamEnv) exampleState)"
  define fsys where
    "fsys = files (snd (createProject noStreamEnv ''app'' False [''work''] exampleState))"
  have d: "downloadStream noStreamEnv (examplesProjectUrl noStreamEnv) = NoStream"
    by (simp add: noStreamEnv_def)
  have ok: "fst (validateProjectRoot noStreamEnv (resolve [''work''] [basename ''app''])
             (shouldUseYarn noStreamEnv) exampleState) = Inr ()"
    by code_simp
  have h: "validForNewPackages (validateNpmPackageName noStreamEnv ''app'')
           \<and> validateProjectRoot noStreamEnv (resolve [''work''] [basename ''app''])
                (shouldUseYarn noStreamEnv) exampleState = (Inr (), s2)"
    using ok by (simp add: s2_def prod_eq_iff noStreamEnv_def exampleEnv_def)
  have e: "ensureDirSync (files s2) (resolve (getTempFileName noStreamEnv) [''examples''])
             = Inr fsys"
    unfolding s2_def fsys_def by code_simp
  have l: "logged (snd (createProject noStreamEnv ''app'' False [''work''] exampleState))
       = [Info [''Downloading template project from the Diez CDN...''],
          Warning [''Unable to download template project from the Diez CDN. Are you connected to the internet?''],
          Warning [''If you would like to generate an empty project, you can re-run this command with --bare.'']]"
    by code_simp
  have nb: "\<not> False" by simp
  from createProject_no_stream [of False noStreamEnv "''app''" "[''work'']" exampleState,
      OF nb d, THEN conjunct2, rule_format, OF h, THEN conjunct2, rule_format, OF e]
  have "fst (createProject noStreamEnv ''app'' False [''work''] exampleState)
       = Inl (Error ''Unable to download template project from examples.diez.org. Please try again.'')"
    by simp
  with d h ok l show ?thesis by simp
qed

text \<open>
  C5. When the name and the root have passed their checks, the template has been
  materialised and the install command fails, \<^verbatim>\<open>createProject\<close> returns without an
  error. The log gains, in this order: the loading message, the two warnings (the second
  tells how to install by hand), the stop of the loading message, the line about the
  repository if its initialisation succeeded, and the success report.
\<close>

theorem createProject_install_fails:
  assumes "validForNewPackages (validateNpmPackageName env packageName)"
    and "validateProjectRoot env (resolve cwd [basename packageName]) (shouldUseYarn env) s
           = (Inr (), s2)"
    and "materializeTemplate env packageName bare cwd (resolve cwd [basename packageName]) s2
           = (Inr (), s3)"
    and "\<not> execAsync env (packageManager (shouldUseYarn env) @ '' install'')
             (resolve cwd [basename packageName])"
  shows "fst (createProject env packageName bare cwd s) = Inr ()
         \<and> files (snd (createProject env packageName bare cwd s)) = files s3
         \<and> logged (snd (createProject env packageName bare cwd s)) =
             logged s3
             @ [LoadingStart ''Installing dependencies. This might take a couple of minutes.'',
                Warning [''Unable to install dependencies. Are you connected to the Internet?''],
                Warning [''You may need to run ''
                           @ formatCode env (packageManager (shouldUseYarn env) @ '' install'')
                           @ '' before '' @ formatCode env ''diez'' @ '' commands will work.''],
                LoadingStop]
             @ (if initializeGitRepository env (resolve cwd [basename packageName])
                then [Info [''Initialized a Git repository at ''
                              @ path_str (resolve cwd [basename packageName])]]
                else [])
             @ successReport env bare cwd (resolve cwd [basename packageName]) (shouldUseYarn env)"
  using assms
  by (simp add: createProject_valid installAndReport_def installWarnings_def Log_info_def Let_def)

theorem createProject_install_fails_witness:
  "validForNewPackages (validateNpmPackageName exampleEnv ''app'')
   \<and> fst (validateProjectRoot exampleEnv (resolve [''work''] [basename ''app''])
             (shouldUseYarn exampleEnv) exampleState) = Inr ()
   \<and> fst (materializeTemplate exampleEnv ''app'' True [''work'']
             (resolve [''work''] [basename ''app''])
             (snd (validateProjectRoot exampleEnv (resolve [''work''] [basename ''app''])
                     (shouldUseYarn exampleEnv) exampleState))) = Inr ()
   \<and> \<not> execAsync exampleEnv (packageManager (shouldUseYarn exampleEnv) @ '' install'')
         (resolve [''work''] [basename ''app''])
   \<and> fst (createProject exampleEnv ''app'' True [''work''] exampleState) = Inr ()
   \<and> logged (snd (createProject exampleEnv ''app'' True [''work''] exampleState)) =
       [LoadingStart ''Installing dependencies. This might take a couple of minutes.'',
        Warning [''Unable to install dependencies. Are you connected to the Internet?''],
        Warning [''You may need to run yarn install before diez commands will work.''],
        LoadingStop,
        Info [''Initialized a Git repository at /work/app''],
        Info [''Success! A new Diez (DS) has been created at /work/app.'' @ [CHR 0x0A]],
        Info [''In that directory, the diez command line utility can be invoked using:''
                @ [CHR 0x0A] @ ''  yarn diez'' @ [CHR 0x0A]],
        Info [''To see a list of available commands, you can run:'' @ [CHR 0x0A]
                @ ''  cd app'' @ [CHR 0x0A] @ ''  yarn diez --help'']]"
proof -
  define s2 where
    "s2 = snd (validateProjectRoot exampleEnv (resolve [''work''] [basename ''app''])
                 (shouldUseYarn exampleEnv) exampleState)"
  define s3 where
    "s3 = snd (materializeTemplate exampleEnv ''app'' True [''work'']
                 (resolve [''work''] [basename ''app'']) s2)"
  have n: "validForNewPackages (validateNpmPackageName exampleEnv ''app'')"
    by (simp add: exampleEnv_def)
  have v: "fst (validateProjectRoot exampleEnv (resolve [''work''] [basename ''app''])
             (shouldUseYarn exampleEnv) exampleState) = Inr ()"
    by code_simp
  have m: "fst (materializeTemplate exampleEnv ''app'' True [''work'']
             (resolve [''work''] [basename ''app'']) s2) = Inr ()"
    unfolding s2_def by code_simp
  have x: "\<not> execAsync exampleEnv (packageManager (shouldUseYarn exampleEnv) @ '' install'')
             (resolve [''work''] [basename ''app''])"
    by (simp add: exampleEnv_def)
  have l3: "logged s3 = []"
    unfolding s3_def s2_def by code_simp
  have r: "successReport exampleEnv True [''work''] (resolve [''work''] [basename ''app''])
             (shouldUseYarn exampleEnv) =
       [Info [''Success! A new Diez (DS) has been created at /work/app.'' @ [CHR 0x0A]],
        Info [''In that directory, the diez command line utility can be invoked using:''
                @ [CHR 0x0A] @ ''  yarn diez'' @ [CHR 0x0A]],
        Info [''To see a list of available commands, you can run:'' @ [CHR 0x0A]
                @ ''  cd app'' @ [CHR 0x0A] @ ''  yarn diez --help'']]"
    by code_simp
  have g: "initializeGitRepository exampleEnv (resolve [''work''] [basename ''app''])"
    by (simp add: exampleEnv_def)
  have p: "path_str (resolve [''work''] [basename ''app'']) = ''/work/app''"
    by code_simp
  have f: "formatCode exampleEnv = (\<lambda>s. s)" "packageManager (shouldUseYarn exampleEnv) = ''yarn''"
    by (simp_all add: exampleEnv_def packageManager_def shouldUseYarn_def)
  have v': "validateProjectRoot exampleEnv (resolve [''work''] [basename ''app''])
              (shouldUseYarn exampleEnv) exampleState = (Inr (), s2)"
    using v by (simp add: s2_def prod_eq_iff)
  have m': "materializeTemplate exampleEnv ''app'' True [''work'']
              (resolve [''work''] [basename ''app'']) s2 = (Inr (), s3)"
    using m by (simp add: s3_def prod_eq_iff)
  from createProject_install_fails [OF n v' m' x]
  have "fst (createProject exampleEnv ''app'' True [''work''] exampleState) = Inr ()
        \<and> logged (snd (createProject exampleEnv ''app'' True [''work''] exampleState)) =
       [LoadingStart ''Installing dependencies. This might take a couple of minutes.'',
        Warning [''Unable to install dependencies. Are you connected to the Internet?''],
        Warning [''You may need to run yarn install before diez commands will work.''],
        LoadingStop,
        Info [''Initialized a Git repository at /work/app''],
        Info [''Success! A new Diez (DS) has been created at /work/app.'' @ [CHR 0x0A]],
        Info [''In that directory, the diez command line utility can be invoked using:''
                @ [CHR 0x0A] @ ''  yarn diez'' @ [CHR 0x0A]],
        Info [''To see a list of available commands, you can run:'' @ [CHR 0x0A]
                @ ''  cd app'' @ [CHR 0x0A] @ ''  yarn diez --help'']]"
    by (simp add: l3 r g p f)
  with n v m x show ?thesis by (simp add: s2_def)
qed

text \<open>
  C6, as amended. \<^verbatim>\<open>validateProjectRoot\<close> throws when a regular file occupies the path.
  When the path is absent, what happens depends on the first path that exists above it:
  if that is a directory, the path is a directory afterwards and every path that existed
  reads the same; if it is a regular file, the \<^verbatim>\<open>ENOTDIR\<close> error of \<^verbatim>\<open>ensureDirSync\<close> is
  thrown and the state is unchanged, so nothing is created. When the path is a directory
  that holds a \<^verbatim>\<open>package.json\<close>, the conflict error is thrown and the state is unchanged:
  nothing is overwritten or removed.
\<close>

theorem validateProjectRoot_checks:
  "(is_file (files s) root \<longrightarrow>
      validateProjectRoot env root useYarn s
        = (Inl (Error (''Found a non-directory at '' @ path_str root @ ''.'')), s))
   \<and> (\<not> existsSync (files s) root \<and> \<not> file_in_the_way (files s) root \<longrightarrow>
        isDirectory (files (snd (validateProjectRoot env root useYarn s))) root
        \<and> (\<forall>p. existsSync (files s) p \<longrightarrow>
               stat (files (snd (validateProjectRoot env root useYarn s))) p = stat (files s) p))
   \<and> (\<not> existsSync (files s) root \<and> file_in_the_way (files s) root \<longrightarrow>
        validateProjectRoot env root useYarn s = (Inl (SysError ''ENOTDIR'' root), s))
   \<and> (isDirectory (files s) root \<and> existsSync (files s) (join_path root [''package.json'']) \<longrightarrow>
        validateProjectRoot env root useYarn s
          = (Inl (Error (''A Node.js project already exists at '' @ path_str root @ ''.'')), s))"
proof (intro conjI impI)
  assume "is_file (files s) root"
  then show "validateProjectRoot env root useYarn s
               = (Inl (Error (''Found a non-directory at '' @ path_str root @ ''.'')), s)"
    by (simp add: validateProjectRoot_def is_file_iff)
next
  assume h: "\<not> existsSync (files s) root \<and> \<not> file_in_the_way (files s) root"
  then have nf: "\<not> is_file (files s) root" by (simp add: is_file_iff)
  from h obtain fsys where e: "ensureDirSync (files s) root = Inr fsys"
    using ensureDirSync_file_in_the_way by blast
  note v = validateProjectRoot_after_ensure [OF nf e, of env useYarn]
  show "isDirectory (files (snd (validateProjectRoot env root useYarn s))) root"
    using ensureDirSync_isDir [OF e] by (simp add: v isDirectory_def)
  have "stat fsys p = stat (files s) p" if "existsSync (files s) p" for p
  proof (rule ccontr)
    assume "stat fsys p \<noteq> stat (files s) p"
    from ensureDirSync_frame [OF e this] that show False by (simp add: existsSync_def)
  qed
  then show "\<forall>p. existsSync (files s) p \<longrightarrow>
          stat (files (snd (validateProjectRoot env root useYarn s))) p = stat (files s) p"
    by (simp add: v)
next
  assume h: "\<not> existsSync (files s) root \<and> file_in_the_way (files s) root"
  then have "ensureDirSync (files s) root = Inl (SysError ''ENOTDIR'' root)"
    by (simp add: existsSync_def ensureDirSync_blocked)
  with h show "validateProjectRoot env root useYarn s = (Inl (SysError ''ENOTDIR'' root), s)"
    by (simp add: validateProjectRoot_def)
next
  assume h: "isDirectory (files s) root
             \<and> existsSync (files s) (join_path root [''package.json''])"
  then have nf: "\<not> is_file (files s) root" by (simp add: is_file_iff)
  from h have e: "ensureDirSync (files s) root = Inr (files s)"
    by (simp add: isDirectory_def ensureDirSync_existing)
  from h show "validateProjectRoot env root useYarn s
          = (Inl (Error (''A Node.js project already exists at '' @ path_str root @ ''.'')), s)"
    by (simp add: validateProjectRoot_after_ensure [OF nf e] join_path_single)
qed

theorem validateProjectRoot_checks_witness:
  "is_file (files exampleState) [''work'', ''notes.txt'']
   \<and> validateProjectRoot exampleEnv [''work'', ''notes.txt''] True exampleState
       = (Inl (Error ''Found a non-directory at /work/notes.txt.''), exampleState)
   \<and> \<not> existsSync (files exampleState) [''work'', ''app'']
   \<and> \<not> file_in_the_way (files exampleState) [''work'', ''app'']
   \<and> isDirectory
        (files (snd (validateProjectRoot exampleEnv [''work'', ''app''] True exampleState)))
        [''work'', ''app'']
   \<and> existsSync (files exampleState) [''work'', ''notes.txt'']
   \<and> stat (files (snd (validateProjectRoot exampleEnv [''work'', ''app''] True exampleState)))
        [''work'', ''notes.txt'']
       = stat (files exampleState) [''work'', ''notes.txt'']
   \<and> \<not> existsSync (files exampleState) [''work'', ''notes.txt'', ''app'']
   \<and> file_in_the_way (files exampleState) [''work'', ''notes.txt'', ''app'']
   \<and> validateProjectRoot exampleEnv [''work'', ''notes.txt'', ''app''] True exampleState
       = (Inl (SysError ''ENOTDIR'' [''work'', ''notes.txt'', ''app'']), exampleState)
   \<and> isDirectory (files exampleState) [''work'', ''old'']
   \<and> existsSync (files exampleState) (join_path [''work'', ''old''] [''package.json''])
   \<and> validateProjectRoot exampleEnv [''work'', ''old''] True exampleState
       = (Inl (Error ''A Node.js project already exists at /work/old.''), exampleState)"
proof -
  have f: "is_file (files exampleState) [''work'', ''notes.txt'']"
    by code_simp
  have a: "\<not> existsSync (files exampleState) [''work'', ''app'']
           \<and> \<not> file_in_the_way (files exampleState) [''work'', ''app'']"
    by code_simp
  have k: "existsSync (files exampleState) [''work'', ''notes.txt'']"
    by code_simp
  have b: "\<not> existsSync (files exampleState) [''work'', ''notes.txt'', ''app'']
           \<and> file_in_the_way (files exampleState) [''work'', ''notes.txt'', ''app'']"
    by code_simp
  have d: "isDirectory (files exampleState) [''work'', ''old'']
           \<and> existsSync (files exampleState) (join_path [''work'', ''old''] [''package.json''])"
    by code_simp
  note t1 = validateProjectRoot_checks
    [of exampleState "[''work'', ''notes.txt'']" exampleEnv True, THEN conjunct1, rule_format, OF f]
  note t2 = validateProjectRoot_checks
    [of exampleState "[''work'', ''app'']" exampleEnv True, THEN conjunct2, THEN conjunct1,
     rule_format, OF a]
  note t2a = t2 [THEN conjunct1]
  note t2b = t2 [THEN conjunct2, rule_format, OF k]
  note t3 = validateProjectRoot_checks
    [of exampleState "[''work'', ''notes.txt'', ''app'']" exampleEnv True, THEN conjunct2,
     THEN conjunct2, THEN conjunct1, rule_format, OF b]
  note t4 = validateProjectRoot_checks
    [of exampleState "[''work'', ''old'']" exampleEnv True, THEN conjunct2, THEN conjunct2,
     THEN conjunct2, rule_format, OF d]
  from f a k b d t1 t2a t2b t3 t4 show ?thesis by (simp add: path_str_def)
qed

text \<open>
  An absent path is not always created. \<^verbatim>\<open>/work/notes.txt/app\<close> is absent and
  \<^verbatim>\<open>/work/notes.txt\<close> is a regular file: the call throws the error of \<^verbatim>\<open>ensureDirSync\<close>,
  the state is what it was, and the path is no directory afterwards.
\<close>

theorem validateProjectRoot_checks_counterexample:
  "\<not> existsSync (files exampleState) [''work'', ''notes.txt'', ''app'']
   \<and> is_file (files exampleState) [''work'', ''notes.txt'']
   \<and> validateProjectRoot exampleEnv [''work'', ''notes.txt'', ''app''] True exampleState
       = (Inl (SysError ''ENOTDIR'' [''work'', ''notes.txt'', ''app'']), exampleState)
   \<and> \<not> isDirectory
         (files (snd (validateProjectRoot exampleEnv [''work'', ''notes.txt'', ''app''] True
                        exampleState)))
         [''work'', ''notes.txt'', ''app'']"
  by code_simp

text \<open>
  C7. For the name \<^verbatim>\<open>my-cool-app\<close> the token set of \<^verbatim>\<open>createTemplateProject\<close> holds the
  PascalCase value \<^verbatim>\<open>MyCoolApp\<close>, the kebab-case value \<^verbatim>\<open>my-cool-app\<close>, the snake_case value
  \<^verbatim>\<open>my_cool_app\<close> and the CONSTANT_CASE value \<^verbatim>\<open>MY_COOL_APP\<close>.
\<close>

theorem templateTokens_my_cool_app:
  "map_of (templateTokens changeCaseLib ''my-cool-app'') ''namePascalCase'' = Some ''MyCoolApp''
   \<and> map_of (templateTokens changeCaseLib ''my-cool-app'') ''nameKebabCase'' = Some ''my-cool-app''
   \<and> map_of (templateTokens changeCaseLib ''my-cool-app'') ''nameSnakeCase'' = Some ''my_cool_app''
   \<and> map_of (templateTokens changeCaseLib ''my-cool-app'') ''nameConstantCase''
       = Some ''MY_COOL_APP''"
  by code_simp

text \<open>
  C8, as amended. A second substitution pass leaves a tree unchanged when the tree that
  the first pass produced holds no placeholder of the token set, in no file name and in
  no content.
\<close>

theorem substituteTree_twice:
  assumes "\<not> tree_has_placeholder tk (substituteTree tk tree)"
  shows "substituteTree tk (substituteTree tk tree) = substituteTree tk tree"
  using assms by (rule substituteTree_no_placeholder)

theorem substituteTree_twice_witness:
  "\<not> tree_has_placeholder (templateTokens changeCaseLib ''my-cool-app'')
       (substituteTree (templateTokens changeCaseLib ''my-cool-app'')
          [([''{{nameKebabCase}}'', ''README.md''], ''# {{nameTitleCase}}'')])
   \<and> substituteTree (templateTokens changeCaseLib ''my-cool-app'')
         [([''{{nameKebabCase}}'', ''README.md''], ''# {{nameTitleCase}}'')]
       = [([''my-cool-app'', ''README.md''], ''# My Cool App'')]
   \<and> substituteTree (templateTokens changeCaseLib ''my-cool-app'')
         (substituteTree (templateTokens changeCaseLib ''my-cool-app'')
            [([''{{nameKebabCase}}'', ''README.md''], ''# {{nameTitleCase}}'')])
       = [([''my-cool-app'', ''README.md''], ''# My Cool App'')]"
proof -
  have h: "\<not> tree_has_placeholder (templateTokens changeCaseLib ''my-cool-app'')
       (substituteTree (templateTokens changeCaseLib ''my-cool-app'')
          [([''{{nameKebabCase}}'', ''README.md''], ''# {{nameTitleCase}}'')])"
    by code_simp
  have once: "substituteTree (templateTokens changeCaseLib ''my-cool-app'')
         [([''{{nameKebabCase}}'', ''README.md''], ''# {{nameTitleCase}}'')]
       = [([''my-cool-app'', ''README.md''], ''# My Cool App'')]"
    by code_simp
  from substituteTree_twice [OF h] h once show ?thesis by simp
qed

text \<open>
  Without that condition the pass is not idempotent. The token set of the source maps
  \<^verbatim>\<open>openTag\<close> to \<^verbatim>\<open>{{\<close> and \<^verbatim>\<open>closeTag\<close> to \<^verbatim>\<open>}}\<close>, so the first pass can write a
  placeholder, which the second pass then replaces.
\<close>

theorem substituteTree_twice_counterexample:
  "substituteTree (templateTokens changeCaseLib ''my-cool-app'')
     [([''README.md''], ''{{openTag}}nameKebabCase{{closeTag}}'')]
     = [([''README.md''], ''{{nameKebabCase}}'')]
   \<and> substituteTree (templateTokens changeCaseLib ''my-cool-app'')
       (substituteTree (templateTokens changeCaseLib ''my-cool-app'')
          [([''README.md''], ''{{openTag}}nameKebabCase{{closeTag}}'')])
     = [([''README.md''], ''my-cool-app'')]
   \<and> substituteTree (templateTokens changeCaseLib ''my-cool-app'')
       (substituteTree (templateTokens changeCaseLib ''my-cool-app'')
          [([''README.md''], ''{{openTag}}nameKebabCase{{closeTag}}'')])
     \<noteq> substituteTree (templateTokens changeCaseLib ''my-cool-app'')
          [([''README.md''], ''{{openTag}}nameKebabCase{{closeTag}}'')]"
  by code_simp

text \<open>
  C9, as amended. Every name token is the conversion of that kind applied to the name
  given to \<^verbatim>\<open>createTemplateProject\<close>, except the lower-case token, which is the lower-case
  conversion applied to the PascalCase form of the name; the two delimiter tokens are
  \<^verbatim>\<open>{{\<close> and \<^verbatim>\<open>}}\<close>.
\<close>

theorem templateTokens_conversions:
  "map_of (templateTokens cc name) ''namePascalCase'' = Some (pascalCase cc name)
   \<and> map_of (templateTokens cc name) ''nameLowerCase'' = Some (lowerCase cc (pascalCase cc name))
   \<and> map_of (templateTokens cc name) ''nameKebabCase'' = Some (kebabCase cc name)
   \<and> map_of (templateTokens cc name) ''nameCamelCase'' = Some (camelCase cc name)
   \<and> map_of (templateTokens cc name) ''nameTitleCase'' = Some (titleCase cc name)
   \<and> map_of (templateTokens cc name) ''nameNoCase'' = Some (noCase cc name)
   \<and> map_of (templateTokens cc name) ''nameSnakeCase'' = Some (snakeCase cc name)
   \<and> map_of (templateTokens cc name) ''nameConstantCase'' = Some (constantCase cc name)
   \<and> map_of (templateTokens cc name) ''nameHeaderCase'' = Some (headerCase cc name)
   \<and> map_of (templateTokens cc name) ''nameDotCase'' = Some (dotCase cc name)
   \<and> map_of (templateTokens cc name) ''openTag'' = Some ''{{''
   \<and> map_of (templateTokens cc name) ''closeTag'' = Some ''}}''
   \<and> map fst (templateTokens cc name) =
       [''openTag'', ''closeTag'', ''namePascalCase'', ''nameLowerCase'', ''nameKebabCase'',
        ''nameCamelCase'', ''nameTitleCase'', ''nameNoCase'', ''nameSnakeCase'',
        ''nameConstantCase'', ''nameHeaderCase'', ''nameDotCase'']"
  by (simp add: templateTokens_def Let_def)

text \<open>
  The lower-case token is not the lower-case conversion of the name itself: for
  \<^verbatim>\<open>my-cool-app\<close> it is \<^verbatim>\<open>mycoolapp\<close>, while lower-casing the name keeps its hyphens.
\<close>

theorem templateTokens_conversions_counterexample:
  "map_of (templateTokens changeCaseLib ''my-cool-app'') ''nameLowerCase'' = Some ''mycoolapp''
   \<and> lowerCase changeCaseLib ''my-cool-app'' = ''my-cool-app''
   \<and> map_of (templateTokens changeCaseLib ''my-cool-app'') ''nameLowerCase''
       \<noteq> Some (lowerCase changeCaseLib ''my-cool-app'')"
  by code_simp

text \<open>
  C10. \<^verbatim>\<open>canUseNpm\<close> fails open. It answers true when the probe throws, when the joined
  output is not a string, and when no line of the output starts with \<^verbatim>\<open>; cwd = \<close>. It
  answers false exactly when the output is a string with such a line and the rest of the
  first such line differs from the given root.
\<close>

theorem canUseNpm_fails_open:
  "canUseNpm SpawnThrows root
   \<and> canUseNpm (Joined JNonString) root
   \<and> (cwd_line out = None \<longrightarrow> canUseNpm (Joined (JString out)) root)
   \<and> (\<not> canUseNpm childOutput root \<longleftrightarrow>
        (\<exists>s l. childOutput = Joined (JString s) \<and> cwd_line s = Some l \<and> drop 8 l \<noteq> root))"
  by (auto simp: canUseNpm_def match_cwd_lines
           split: child_output.splits js_value.splits option.splits)

theorem canUseNpm_fails_open_witness:
  "canUseNpm SpawnThrows ''/work/app''
   \<and> canUseNpm (Joined JNonString) ''/work/app''
   \<and> cwd_line ''; userconfig = x'' = None
   \<and> canUseNpm (Joined (JString ''; userconfig = x'')) ''/work/app''
   \<and> cwd_line (''; a = b'' @ [CHR 0x0A] @ ''; cwd = /work'' @ [CHR 0x0A] @ ''; z'')
       = Some ''; cwd = /work''
   \<and> \<not> canUseNpm
         (Joined (JString (''; a = b'' @ [CHR 0x0A] @ ''; cwd = /work'' @ [CHR 0x0A] @ ''; z'')))
         ''/work/app''"
proof -
  have n: "cwd_line ''; userconfig = x'' = None"
    by (simp add: cwd_line_def line_terminator_def)
  have s: "cwd_line (''; a = b'' @ [CHR 0x0A] @ ''; cwd = /work'' @ [CHR 0x0A] @ ''; z'')
             = Some ''; cwd = /work''"
    by (simp add: cwd_line_def line_terminator_def)
  show ?thesis
    using n s
      canUseNpm_fails_open [of "''/work/app''" "''; userconfig = x''"
        "Joined (JString (''; a = b'' @ [CHR 0x0A] @ ''; cwd = /work'' @ [CHR 0x0A] @ ''; z''))"]
    by simp
qed

end
